theory Spec2Isabelle
  imports Main "HOL-Library.List_Lexorder" "HOL-Library.Product_Lexorder"
begin

section \<open>JavaScript values\<close>

text \<open>
  A JavaScript string is a sequence of 16-bit code units, here a list of their numbers; a
  literal of the source is written \<open>lit ''...''\<close>, and \<open>code c\<close> is the code unit of a
  character.
\<close>

type_synonym jstring = "nat list"

abbreviation code :: "char \<Rightarrow> nat" where
  "code c \<equiv> of_char c"

abbreviation lit :: "string \<Rightarrow> jstring" where
  "lit s \<equiv> map of_char s"

text \<open>
  The request bodies the server reads come out of \<^verbatim>\<open>express.json()\<close>, so they are JSON
  values: null, booleans, numbers, strings, arrays and objects. An object is the list of
  its own properties in property order. A JavaScript expression that may also be
  \<^verbatim>\<open>undefined\<close> (a missing property, an absent header) is a \<open>json option\<close>, with
  \<open>None\<close> for \<^verbatim>\<open>undefined\<close>.
  A number is the decimal that JavaScript prints for it: \<open>JNum m d\<close> is \<open>m / 10 ^ d\<close>, with
  \<open>d\<close> the least number of fraction digits that writes it, so that \<open>JNum 125 1\<close> is 12.5
  and \<open>JNum 10 0\<close> is 10. The negative zero, which JavaScript prints as zero, is zero here.
\<close>

datatype json =
    JNull
  | JBool bool
  | JNum int nat
  | JStr jstring
  | JArr "json list"
  | JObj "(jstring \<times> json) list"

text \<open>ToBoolean, as \<^verbatim>\<open>!x\<close>, \<^verbatim>\<open>x || y\<close> and \<^verbatim>\<open>x && y\<close> apply it: an array and an
  object are truthy even when empty.\<close>

fun truthy :: "json option \<Rightarrow> bool" where
  "truthy None = False"
| "truthy (Some JNull) = False"
| "truthy (Some (JBool b)) = b"
| "truthy (Some (JNum m d)) = (m \<noteq> 0)"
| "truthy (Some (JStr s)) = (s \<noteq> [])"
| "truthy (Some (JArr xs)) = True"
| "truthy (Some (JObj kvs)) = True"

text \<open>Reading a named property of a value that is neither \<^verbatim>\<open>undefined\<close> nor
  \<^verbatim>\<open>null\<close>: \<^verbatim>\<open>undefined\<close> when the value has no such property. (The names the server
  reads are no property of an array, a string, a number or a boolean.)\<close>

fun get_prop :: "json \<Rightarrow> jstring \<Rightarrow> json option" where
  "get_prop (JObj kvs) k = map_of kvs k"
| "get_prop v k = None"

text \<open>\<^verbatim>\<open>s.split(' ')\<close>: the segments between the separators; there is always at least
  one segment, and two adjacent separators enclose an empty one.\<close>

fun js_split :: "nat \<Rightarrow> jstring \<Rightarrow> jstring list" where
  "js_split sep [] = [[]]"
| "js_split sep (c # cs) =
     (if c = sep then [] # js_split sep cs
      else (case js_split sep cs of
              [] \<Rightarrow> [[c]]
            | seg # segs \<Rightarrow> (c # seg) # segs))"

text \<open>\<^verbatim>\<open>xs[i]\<close>: \<^verbatim>\<open>undefined\<close> past the end of the array.\<close>

definition js_index :: "'a list \<Rightarrow> nat \<Rightarrow> 'a option" where
  "js_index xs i = (if i < length xs then Some (xs ! i) else None)"

text \<open>\<^verbatim>\<open>s.includes(sub)\<close>\<close>

fun js_includes :: "jstring \<Rightarrow> jstring \<Rightarrow> bool" where
  "js_includes [] sub = (sub = [])"
| "js_includes (c # cs) sub = (take (length sub) (c # cs) = sub \<or> js_includes cs sub)"

section \<open>JSON text\<close>

text \<open>
  \<^verbatim>\<open>JSON.stringify\<close> and \<^verbatim>\<open>JSON.parse\<close> belong to the JavaScript runtime. They are
  written out here as ECMAScript defines them, on the values above: the server stores the
  cart as the text the first produces and reads it back with the second.
\<close>

definition digit_char :: "nat \<Rightarrow> nat" where
  "digit_char d = 48 + d"

fun show_nat :: "nat \<Rightarrow> jstring" where
  "show_nat n = (if n < 10 then [digit_char n] else show_nat (n div 10) @ [digit_char (n mod 10)])"

text \<open>Number::toString of a positive number \<open>m / 10 ^ d\<close>. With \<open>s\<close> its \<open>k\<close> significant
  digits and \<open>n\<close> the number of them before the decimal point: the digits alone when the
  number is an integer below \<open>10 ^ 21\<close>, the digits around a point, the digits after
  \<^verbatim>\<open>0.\<close> and up to five zeros, or else the exponent notation.\<close>

definition strip_zeros :: "jstring \<Rightarrow> jstring" where
  "strip_zeros ds = rev (dropWhile (\<lambda>c. c = code (CHR ''0'')) (rev ds))"

definition show_positive :: "nat \<Rightarrow> nat \<Rightarrow> jstring" where
  "show_positive m d =
     (let ds = show_nat m;
          s = strip_zeros ds;
          k = int (length s);
          n = int (length ds) - int d
      in if k \<le> n \<and> n \<le> 21 then s @ replicate (nat (n - k)) (code (CHR ''0''))
         else if 0 < n \<and> n \<le> 21 then take (nat n) s @ lit ''.'' @ drop (nat n) s
         else if - 6 < n \<and> n \<le> 0 then lit ''0.'' @ replicate (nat (- n)) (code (CHR ''0'')) @ s
         else (if k = 1 then s else hd s # lit ''.'' @ tl s)
                @ lit ''e'' @ (if n - 1 < 0 then lit ''-'' else lit ''+'') @ show_nat (nat \<bar>n - 1\<bar>))"

definition show_number :: "int \<Rightarrow> nat \<Rightarrow> jstring" where
  "show_number m d =
     (if m = 0 then lit ''0''
      else if m < 0 then code (CHR ''-'') # show_positive (nat (- m)) d
      else show_positive (nat m) d)"

definition hex_char :: "nat \<Rightarrow> nat" where
  "hex_char d = (if d < 10 then 48 + d else 87 + d)"

text \<open>UnicodeEscape: \<^verbatim>\<open>\u\<close> and the four lower-case hexadecimal digits of the code
  unit.\<close>

definition unicode_escape :: "nat \<Rightarrow> jstring" where
  "unicode_escape c =
     [0x5C, code (CHR ''u''), hex_char (c div 4096 mod 16), hex_char (c div 256 mod 16),
      hex_char (c div 16 mod 16), hex_char (c mod 16)]"

definition is_leading_surrogate :: "nat \<Rightarrow> bool" where
  "is_leading_surrogate c = (0xD800 \<le> c \<and> c \<le> 0xDBFF)"

definition is_trailing_surrogate :: "nat \<Rightarrow> bool" where
  "is_trailing_surrogate c = (0xDC00 \<le> c \<and> c \<le> 0xDFFF)"

text \<open>QuoteJSONString, for one code point that is one code unit: the quotation mark, the
  backslash and the control characters are escaped, the control characters without a
  short form and a surrogate that has no partner by their number.\<close>

definition escape_unit :: "nat \<Rightarrow> jstring" where
  "escape_unit c =
     (if c = 0x22 then [0x5C, 0x22]
      else if c = 0x5C then [0x5C, 0x5C]
      else if c = 0x08 then [0x5C, code (CHR ''b'')]
      else if c = 0x09 then [0x5C, code (CHR ''t'')]
      else if c = 0x0A then [0x5C, code (CHR ''n'')]
      else if c = 0x0C then [0x5C, code (CHR ''f'')]
      else if c = 0x0D then [0x5C, code (CHR ''r'')]
      else if c < 0x20 \<or> is_leading_surrogate c \<or> is_trailing_surrogate c then unicode_escape c
      else [c])"

text \<open>The string goes code point by code point: a leading surrogate followed by a
  trailing one is one code point, written as it is.\<close>

fun quote_units :: "jstring \<Rightarrow> jstring" where
  "quote_units [] = []"
| "quote_units [c] = escape_unit c"
| "quote_units (c # d # r) =
     (if is_leading_surrogate c \<and> is_trailing_surrogate d then c # d # quote_units r
      else escape_unit c @ quote_units (d # r))"

definition quote_string :: "jstring \<Rightarrow> jstring" where
  "quote_string s = 0x22 # quote_units s @ [0x22]"

fun stringify :: "json \<Rightarrow> jstring"
  and stringify_elements :: "json list \<Rightarrow> jstring"
  and stringify_members :: "(jstring \<times> json) list \<Rightarrow> jstring" where
  "stringify JNull = lit ''null''"
| "stringify (JBool b) = (if b then lit ''true'' else lit ''false'')"
| "stringify (JNum m d) = show_number m d"
| "stringify (JStr s) = quote_string s"
| "stringify (JArr xs) = lit ''['' @ stringify_elements xs @ lit '']''"
| "stringify (JObj kvs) = lit ''{'' @ stringify_members kvs @ lit ''}''"
| "stringify_elements [] = []"
| "stringify_elements [x] = stringify x"
| "stringify_elements (x # y # ys) = stringify x @ lit '','' @ stringify_elements (y # ys)"
| "stringify_members [] = []"
| "stringify_members [(k, v)] = quote_string k @ lit '':'' @ stringify v"
| "stringify_members ((k, v) # kv # kvs) =
     quote_string k @ lit '':'' @ stringify v @ lit '','' @ stringify_members (kv # kvs)"

text \<open>The reader. JSON white space is the space, the tab, the line feed and the carriage
  return.\<close>

definition is_ws :: "nat \<Rightarrow> bool" where
  "is_ws c = (c = 0x20 \<or> c = 0x09 \<or> c = 0x0A \<or> c = 0x0D)"

definition skip_ws :: "jstring \<Rightarrow> jstring" where
  "skip_ws s = dropWhile is_ws s"

definition is_digit :: "nat \<Rightarrow> bool" where
  "is_digit c = (48 \<le> c \<and> c \<le> 57)"

definition digit_val :: "nat \<Rightarrow> nat" where
  "digit_val c = c - 48"

definition read_nat :: "jstring \<Rightarrow> nat" where
  "read_nat ds = foldl (\<lambda>a c. 10 * a + digit_val c) 0 ds"

text \<open>The number \<open>v * 10 ^ ex\<close>, with the least number of fraction digits.\<close>

fun strip_scale :: "nat \<Rightarrow> nat \<Rightarrow> nat \<times> nat" where
  "strip_scale m 0 = (m, 0)"
| "strip_scale m (Suc d) = (if m mod 10 = 0 then strip_scale (m div 10) d else (m, Suc d))"

definition scaled :: "nat \<Rightarrow> int \<Rightarrow> nat \<times> nat" where
  "scaled v ex =
     (if v = 0 then (0, 0)
      else if 0 \<le> ex then (v * 10 ^ nat ex, 0)
      else strip_scale v (nat (- ex)))"

text \<open>The exponent part after its letter: an optional sign and at least one digit.\<close>

definition parse_exponent :: "jstring \<Rightarrow> (int \<times> jstring) option" where
  "parse_exponent s =
     (case s of
        [] \<Rightarrow> None
      | c # cs \<Rightarrow>
          (let t = (if c = code (CHR ''-'') \<or> c = code (CHR ''+'') then cs else s);
               ds = takeWhile is_digit t
           in if ds = [] then None
              else Some (if c = code (CHR ''-'') then - int (read_nat ds) else int (read_nat ds),
                         dropWhile is_digit t)))"

text \<open>The fraction part, when there is one: a point and at least one digit.\<close>

definition parse_fraction :: "jstring \<Rightarrow> (jstring \<times> jstring) option" where
  "parse_fraction s =
     (case s of
        [] \<Rightarrow> Some ([], s)
      | c # cs \<Rightarrow>
          if c = code (CHR ''.'')
          then (if takeWhile is_digit cs = [] then None
                else Some (takeWhile is_digit cs, dropWhile is_digit cs))
          else Some ([], s))"

text \<open>A number literal without its sign: integer digits that are a zero alone or do not
  start with a zero, then an optional fraction, then an optional exponent. The value is
  the decimal written, which is the number \<^verbatim>\<open>JSON.parse\<close> gives where a JavaScript number
  holds that decimal; where none does, \<^verbatim>\<open>JSON.parse\<close> gives the nearest one.\<close>

definition parse_unsigned :: "jstring \<Rightarrow> ((nat \<times> nat) \<times> jstring) option" where
  "parse_unsigned s =
     (let ds = takeWhile is_digit s
      in if ds = [] then None
         else if hd ds = code (CHR ''0'') \<and> length ds > 1 then None
         else
           (case parse_fraction (dropWhile is_digit s) of
              None \<Rightarrow> None
            | Some (fs, r) \<Rightarrow>
                (case r of
                   [] \<Rightarrow> Some (scaled (read_nat (ds @ fs)) (- int (length fs)), r)
                 | c # cs \<Rightarrow>
                     if c = code (CHR ''e'') \<or> c = code (CHR ''E'')
                     then (case parse_exponent cs of
                             None \<Rightarrow> None
                           | Some (ex, r') \<Rightarrow>
                               Some (scaled (read_nat (ds @ fs)) (ex - int (length fs)), r'))
                     else Some (scaled (read_nat (ds @ fs)) (- int (length fs)), r))))"

definition parse_number :: "jstring \<Rightarrow> ((int \<times> nat) \<times> jstring) option" where
  "parse_number s =
     (case s of
        [] \<Rightarrow> None
      | c # cs \<Rightarrow>
          if c = code (CHR ''-'')
          then (case parse_unsigned cs of
                  None \<Rightarrow> None
                | Some ((m, d), r) \<Rightarrow> Some ((- int m, d), r))
          else (case parse_unsigned s of
                  None \<Rightarrow> None
                | Some ((m, d), r) \<Rightarrow> Some ((int m, d), r)))"

definition hex_val :: "nat \<Rightarrow> nat option" where
  "hex_val c =
     (if 48 \<le> c \<and> c \<le> 57 then Some (c - 48)
      else if 97 \<le> c \<and> c \<le> 102 then Some (c - 87)
      else if 65 \<le> c \<and> c \<le> 70 then Some (c - 55)
      else None)"

text \<open>The code unit a one-letter escape stands for.\<close>

definition unescape :: "nat \<Rightarrow> nat option" where
  "unescape e =
     (if e = 0x22 then Some 0x22
      else if e = 0x5C then Some 0x5C
      else if e = code (CHR ''/'') then Some (code (CHR ''/''))
      else if e = code (CHR ''b'') then Some 0x08
      else if e = code (CHR ''f'') then Some 0x0C
      else if e = code (CHR ''n'') then Some 0x0A
      else if e = code (CHR ''r'') then Some 0x0D
      else if e = code (CHR ''t'') then Some 0x09
      else None)"

text \<open>The code units of a string literal after its opening quotation mark, up to the
  closing one. A raw control character is an error; \<^verbatim>\<open>\uXXXX\<close> is the code unit with that
  number, in digits of either case.\<close>

fun parse_chars :: "jstring \<Rightarrow> (jstring \<times> jstring) option" where
  "parse_chars [] = None"
| "parse_chars (c # cs) =
     (if c = 0x22 then Some ([], cs)
      else if c = 0x5C then
        (case cs of
           [] \<Rightarrow> None
         | e # es \<Rightarrow>
             if e = code (CHR ''u'') then
               (case es of
                  h1 # h2 # h3 # h4 # r \<Rightarrow>
                    (case (hex_val h1, hex_val h2, hex_val h3, hex_val h4) of
                       (Some a, Some b, Some x, Some y) \<Rightarrow>
                         (case parse_chars r of
                            None \<Rightarrow> None
                          | Some (us, r') \<Rightarrow> Some ((4096 * a + 256 * b + 16 * x + y) # us, r'))
                     | _ \<Rightarrow> None)
                | _ \<Rightarrow> None)
             else
               (case unescape e of
                  None \<Rightarrow> None
                | Some u \<Rightarrow>
                    (case parse_chars es of
                       None \<Rightarrow> None
                     | Some (us, r') \<Rightarrow> Some (u # us, r'))))
      else if c < 0x20 then None
      else (case parse_chars cs of
              None \<Rightarrow> None
            | Some (us, r') \<Rightarrow> Some (c # us, r')))"

text \<open>The literals \<^verbatim>\<open>null\<close>, \<^verbatim>\<open>true\<close> and \<^verbatim>\<open>false\<close>.\<close>

definition expect :: "jstring \<Rightarrow> jstring \<Rightarrow> json \<Rightarrow> (json \<times> jstring) option" where
  "expect word s v = (if take (length word) s = word then Some (v, drop (length word) s) else None)"

text \<open>Own property keys come in the order ECMAScript gives them: the array indices
  first, ascending, then the other keys in the order they were created.\<close>

definition is_array_index :: "jstring \<Rightarrow> bool" where
  "is_array_index k =
     (k \<noteq> [] \<and> list_all is_digit k \<and> (k = lit ''0'' \<or> hd k \<noteq> code (CHR ''0''))
      \<and> read_nat k < 4294967295)"

fun insert_index :: "jstring \<Rightarrow> 'a \<Rightarrow> (jstring \<times> 'a) list \<Rightarrow> (jstring \<times> 'a) list" where
  "insert_index k v [] = [(k, v)]"
| "insert_index k v ((k', v') # kvs) =
     (if is_array_index k' \<and> read_nat k' < read_nat k
      then (k', v') # insert_index k v kvs
      else (k, v) # (k', v') # kvs)"

text \<open>Creating or overwriting the property \<open>k\<close> of an object: an existing property
  keeps its place.\<close>

definition set_prop :: "(jstring \<times> 'a) list \<Rightarrow> jstring \<Rightarrow> 'a \<Rightarrow> (jstring \<times> 'a) list" where
  "set_prop kvs k v =
     (if k \<in> set (map fst kvs) then map (\<lambda>(k', v'). if k' = k then (k', v) else (k', v')) kvs
      else if is_array_index k then insert_index k v kvs
      else kvs @ [(k, v)])"

definition build_object :: "(jstring \<times> json) list \<Rightarrow> json" where
  "build_object kvs = JObj (foldl (\<lambda>acc (k, v). set_prop acc k v) [] kvs)"

text \<open>The reader descends into arrays and objects; its first argument bounds the number
  of nested calls. An opening bracket costs two of them and a comma one, and a well-formed
  text pays for them with the bracket, its closing bracket and the comma, so
  \<open>JSON_parse\<close> starts the bound above the length of the text.\<close>

fun parse_value :: "nat \<Rightarrow> jstring \<Rightarrow> (json \<times> jstring) option"
  and parse_elements :: "nat \<Rightarrow> jstring \<Rightarrow> (json list \<times> jstring) option"
  and parse_members :: "nat \<Rightarrow> jstring \<Rightarrow> ((jstring \<times> json) list \<times> jstring) option" where
  "parse_value 0 s = None"
| "parse_value (Suc n) s =
     (case skip_ws s of
        [] \<Rightarrow> None
      | c # cs \<Rightarrow>
          if c = code (CHR ''n'') then expect (lit ''ull'') cs JNull
          else if c = code (CHR ''t'') then expect (lit ''rue'') cs (JBool True)
          else if c = code (CHR ''f'') then expect (lit ''alse'') cs (JBool False)
          else if c = 0x22 then
            (case parse_chars cs of None \<Rightarrow> None | Some (us, r) \<Rightarrow> Some (JStr us, r))
          else if c = code (CHR ''['') then
            (case skip_ws cs of
               [] \<Rightarrow> None
             | d # ds \<Rightarrow>
                 if d = code (CHR '']'') then Some (JArr [], ds)
                 else (case parse_elements n cs of
                         None \<Rightarrow> None
                       | Some (vs, r) \<Rightarrow> Some (JArr vs, r)))
          else if c = code (CHR ''{'') then
            (case skip_ws cs of
               [] \<Rightarrow> None
             | d # ds \<Rightarrow>
                 if d = code (CHR ''}'') then Some (JObj [], ds)
                 else (case parse_members n cs of
                         None \<Rightarrow> None
                       | Some (kvs, r) \<Rightarrow> Some (build_object kvs, r)))
          else if c = code (CHR ''-'') \<or> is_digit c then
            (case parse_number (c # cs) of None \<Rightarrow> None | Some ((m, d), r) \<Rightarrow> Some (JNum m d, r))
          else None)"
| "parse_elements 0 s = None"
| "parse_elements (Suc n) s =
     (case parse_value n s of
        None \<Rightarrow> None
      | Some (v, r) \<Rightarrow>
          (case skip_ws r of
             [] \<Rightarrow> None
           | d # ds \<Rightarrow>
               if d = code (CHR '']'') then Some ([v], ds)
               else if d = code (CHR '','') then
                 (case parse_elements n ds of
                    None \<Rightarrow> None
                  | Some (vs, r') \<Rightarrow> Some (v # vs, r'))
               else None))"
| "parse_members 0 s = None"
| "parse_members (Suc n) s =
     (case skip_ws s of
        [] \<Rightarrow> None
      | q # qs \<Rightarrow>
          if q \<noteq> 0x22 then None
          else
            (case parse_chars qs of
               None \<Rightarrow> None
             | Some (k, r) \<Rightarrow>
                 (case skip_ws r of
                    [] \<Rightarrow> None
                  | c # cs \<Rightarrow>
                      if c \<noteq> code (CHR '':'') then None
                      else
                        (case parse_value n cs of
                           None \<Rightarrow> None
                         | Some (v, r') \<Rightarrow>
                             (case skip_ws r' of
                                [] \<Rightarrow> None
                              | d # ds \<Rightarrow>
                                  if d = code (CHR ''}'') then Some ([(k, v)], ds)
                                  else if d = code (CHR '','') then
                                    (case parse_members n ds of
                                       None \<Rightarrow> None
                                     | Some (kvs, r'') \<Rightarrow> Some ((k, v) # kvs, r''))
                                  else None)))))"

text \<open>\<^verbatim>\<open>JSON.parse(text)\<close>: \<open>None\<close> where it throws a SyntaxError. One value, with
  nothing but white space after it.\<close>

definition JSON_parse :: "jstring \<Rightarrow> json option" where
  "JSON_parse s =
     (case parse_value (Suc (length s)) s of
        None \<Rightarrow> None
      | Some (v, r) \<Rightarrow> if skip_ws r = [] then Some v else None)"

text \<open>\<^verbatim>\<open>JSON.stringify(x)\<close> of an expression that may be \<^verbatim>\<open>undefined\<close>, which it
  gives back.\<close>

definition JSON_stringify :: "json option \<Rightarrow> jstring option" where
  "JSON_stringify x = map_option stringify x"

text \<open>
  The values of this model among which the JavaScript values are. The property list of
  every object is in property order: array indices first, ascending, then the other keys,
  each key once. Every number is an integer below \<open>10 ^ 21\<close>, or has a fraction, at most
  17 significant digits and at most 340 fraction digits: the decimal that JavaScript
  prints for a number below \<open>10 ^ 21\<close> is always one of these.
\<close>

definition num_ok :: "int \<Rightarrow> nat \<Rightarrow> bool" where
  "num_ok m d =
     (if d = 0 then \<bar>m\<bar> < 10 ^ 21
      else m mod 10 \<noteq> 0 \<and> \<bar>m\<bar> < 10 ^ 17 \<and> d \<le> 340)"

definition property_order :: "jstring list \<Rightarrow> bool" where
  "property_order ks =
     (ks = filter is_array_index ks @ filter (\<lambda>k. \<not> is_array_index k) ks
      \<and> sorted_wrt (\<lambda>a b. read_nat a < read_nat b) (filter is_array_index ks)
      \<and> distinct (filter (\<lambda>k. \<not> is_array_index k) ks))"

fun json_ok :: "json \<Rightarrow> bool"
  and all_ok :: "json list \<Rightarrow> bool"
  and members_ok :: "(jstring \<times> json) list \<Rightarrow> bool" where
  "json_ok JNull = True"
| "json_ok (JBool b) = True"
| "json_ok (JNum m d) = num_ok m d"
| "json_ok (JStr s) = True"
| "json_ok (JArr xs) = all_ok xs"
| "json_ok (JObj kvs) = (property_order (map fst kvs) \<and> members_ok kvs)"
| "all_ok [] = True"
| "all_ok (x # xs) = (json_ok x \<and> all_ok xs)"
| "members_ok [] = True"
| "members_ok ((k, v) # kvs) = (json_ok v \<and> members_ok kvs)"

section \<open>The Supabase collaborator\<close>

text \<open>
  Supabase is outside the repository: the server only calls it. What it answers is a
  \<open>supabase\<close> record, one field per kind of call, so that every theorem below holds
  for whatever the service answers. What the server can observe of it is the \<open>world\<close>:
  the rows of the four tables and the list of the calls made so far, oldest first. A
  column the server leaves \<^verbatim>\<open>undefined\<close> in an insert is \<open>None\<close> in the row.
\<close>

record user =
  user_ident :: jstring

record getUser_result =
  gu_error :: "jstring option"
  gu_user :: "user option"

record signUp_result =
  su_error :: "jstring option"
  su_user :: "user option"
  su_session :: "jstring option"

record signIn_result =
  si_error :: "jstring option"
  si_session :: "jstring option"

datatype call =
    GetUser jstring
  | SignUp "json option" "json option"
  | SignInWithPassword "json option" "json option"
  | Insert jstring
  | Select jstring

record pedido =
  p_id :: nat
  p_created_at :: nat
  p_user_id :: jstring
  p_items_json :: "jstring option"
  p_total :: "json option"
  p_status :: jstring
  p_details_json :: "jstring option"

record pedido_finalizado =
  f_id :: nat
  f_created_at :: nat
  f_user_id :: jstring
  f_nome :: "json option"
  f_telefone :: "json option"
  f_endereco :: "json option"
  f_pagamento :: "json option"
  f_observacoes :: "json option"
  f_itens_json :: "jstring option"
  f_total :: "json option"

record perfil =
  perfil_id :: jstring
  perfil_nome :: "json option"
  perfil_email :: "json option"
  perfil_telefone :: "json option"

record menu_item =
  m_id :: nat
  m_name :: jstring
  m_description :: jstring
  m_price :: int
  m_category :: "jstring option"
  m_image_url :: "jstring option"

record world =
  pedidos :: "pedido list"
  pedidos_finalizados :: "pedido_finalizado list"
  perfis :: "perfil list"
  menu :: "menu_item list"
  next_id :: nat
  now :: nat
  calls :: "call list"

record supabase =
  getUser_reply :: "jstring \<Rightarrow> getUser_result"
  signUp_reply :: "json option \<Rightarrow> json option \<Rightarrow> signUp_result"
  signIn_reply :: "json option \<Rightarrow> json option \<Rightarrow> signIn_result"
  db_error :: "call \<Rightarrow> jstring option"

definition logged :: "call \<Rightarrow> world \<Rightarrow> world" where
  "logged c w = w\<lparr>calls := calls w @ [c]\<rparr>"

text \<open>\<^verbatim>\<open>supabase.auth.getUser(token)\<close>, \<^verbatim>\<open>supabase.auth.signUp({ email, password })\<close>
  and \<^verbatim>\<open>supabase.auth.signInWithPassword({ email, password })\<close>\<close>

definition auth_getUser :: "supabase \<Rightarrow> jstring \<Rightarrow> world \<Rightarrow> getUser_result \<times> world" where
  "auth_getUser sb token w = (getUser_reply sb token, logged (GetUser token) w)"

definition auth_signUp ::
  "supabase \<Rightarrow> json option \<Rightarrow> json option \<Rightarrow> world \<Rightarrow> signUp_result \<times> world" where
  "auth_signUp sb email password w = (signUp_reply sb email password, logged (SignUp email password) w)"

definition auth_signInWithPassword ::
  "supabase \<Rightarrow> json option \<Rightarrow> json option \<Rightarrow> world \<Rightarrow> signIn_result \<times> world" where
  "auth_signInWithPassword sb email password w =
     (signIn_reply sb email password, logged (SignInWithPassword email password) w)"

text \<open>\<^verbatim>\<open>supabase.from("pedidos").insert([row]).select()\<close>: the store refuses with an
  error, or adds the row with an id and a creation time of its own and gives it back.\<close>

definition insert_pedidos ::
  "supabase \<Rightarrow> jstring \<Rightarrow> jstring option \<Rightarrow> json option \<Rightarrow> jstring \<Rightarrow> jstring option \<Rightarrow> world
     \<Rightarrow> (jstring + pedido) \<times> world" where
  "insert_pedidos sb uid items tot st details w =
     (case db_error sb (Insert (lit ''pedidos'')) of
        Some e \<Rightarrow> (Inl e, logged (Insert (lit ''pedidos'')) w)
      | None \<Rightarrow>
          (let row = \<lparr>p_id = next_id w, p_created_at = now w, p_user_id = uid,
                      p_items_json = items, p_total = tot, p_status = st,
                      p_details_json = details\<rparr>
           in (Inr row,
               logged (Insert (lit ''pedidos''))
                 (w\<lparr>pedidos := pedidos w @ [row], next_id := Suc (next_id w)\<rparr>))))"

definition insert_pedidos_finalizados ::
  "supabase \<Rightarrow> jstring \<Rightarrow> json option \<Rightarrow> json option \<Rightarrow> json option \<Rightarrow> json option
     \<Rightarrow> json option \<Rightarrow> jstring option \<Rightarrow> json option \<Rightarrow> world
     \<Rightarrow> (jstring + pedido_finalizado) \<times> world" where
  "insert_pedidos_finalizados sb uid nome telefone endereco pagamento observacoes itens tot w =
     (case db_error sb (Insert (lit ''pedidos_finalizados'')) of
        Some e \<Rightarrow> (Inl e, logged (Insert (lit ''pedidos_finalizados'')) w)
      | None \<Rightarrow>
          (let row = \<lparr>f_id = next_id w, f_created_at = now w, f_user_id = uid,
                      f_nome = nome, f_telefone = telefone, f_endereco = endereco,
                      f_pagamento = pagamento, f_observacoes = observacoes,
                      f_itens_json = itens, f_total = tot\<rparr>
           in (Inr row,
               logged (Insert (lit ''pedidos_finalizados''))
                 (w\<lparr>pedidos_finalizados := pedidos_finalizados w @ [row],
                    next_id := Suc (next_id w)\<rparr>))))"

text \<open>\<^verbatim>\<open>supabase.from("perfis").insert([row])\<close>: only the error comes back.\<close>

definition insert_perfis ::
  "supabase \<Rightarrow> jstring \<Rightarrow> json option \<Rightarrow> json option \<Rightarrow> json option \<Rightarrow> world
     \<Rightarrow> jstring option \<times> world" where
  "insert_perfis sb ident nome email telefone w =
     (case db_error sb (Insert (lit ''perfis'')) of
        Some e \<Rightarrow> (Some e, logged (Insert (lit ''perfis'')) w)
      | None \<Rightarrow>
          (None,
           logged (Insert (lit ''perfis''))
             (w\<lparr>perfis := perfis w @
                  [\<lparr>perfil_id = ident, perfil_nome = nome, perfil_email = email,
                    perfil_telefone = telefone\<rparr>]\<rparr>)))"

text \<open>\<^verbatim>\<open>.from('pedidos').select(...).eq('user_id', userId).order('created_at',
  { ascending: false })\<close>: the rows of that user, latest creation time first.\<close>

definition select_pedidos :: "supabase \<Rightarrow> jstring \<Rightarrow> world \<Rightarrow> (jstring + pedido list) \<times> world" where
  "select_pedidos sb uid w =
     (case db_error sb (Select (lit ''pedidos'')) of
        Some e \<Rightarrow> (Inl e, logged (Select (lit ''pedidos'')) w)
      | None \<Rightarrow>
          (Inr (sort_key (\<lambda>r. - int (p_created_at r)) (filter (\<lambda>r. p_user_id r = uid) (pedidos w))),
           logged (Select (lit ''pedidos'')) w))"

text \<open>\<^verbatim>\<open>.from("menu").select("*").order("category").order("id")\<close>: every row, by
  category with the rows that have none last, then by id.\<close>

definition menu_key :: "menu_item \<Rightarrow> bool \<times> jstring \<times> nat" where
  "menu_key m = (m_category m = None, (case m_category m of None \<Rightarrow> [] | Some c \<Rightarrow> c), m_id m)"

definition select_menu :: "supabase \<Rightarrow> world \<Rightarrow> (jstring + menu_item list) \<times> world" where
  "select_menu sb w =
     (case db_error sb (Select (lit ''menu'')) of
        Some e \<Rightarrow> (Inl e, logged (Select (lit ''menu'')) w)
      | None \<Rightarrow> (Inr (sort_key menu_key (menu w)), logged (Select (lit ''menu'')) w))"

section \<open>Requests and responses\<close>

text \<open>A request as it arrives: its Authorization header, when it has one, and its
  payload, the text of its body when it announces a JSON body.\<close>

record incoming =
  header_authorization :: "jstring option"
  payload :: "jstring option"

text \<open>The request as a route sees it: \<^verbatim>\<open>req.headers['authorization']\<close> and
  \<^verbatim>\<open>req.body\<close>, which is \<^verbatim>\<open>undefined\<close> when nothing has set it.\<close>

record request =
  authorization :: "jstring option"
  body :: "json option"

record response =
  res_status :: nat
  res_json :: json

datatype js_error = TypeError jstring | SyntaxError

text \<open>What the server did with a request: a route sent a response; or an exception left
  the handler with no response sent; or the body parser refused the request before any
  route ran, with an error of the given status that the framework answers.\<close>

datatype outcome = Sent response | Threw js_error | Refused nat

definition error_body :: "jstring \<Rightarrow> json" where
  "error_body msg = JObj [(lit ''error'', JStr msg)]"

definition send_error :: "nat \<Rightarrow> jstring \<Rightarrow> outcome" where
  "send_error st msg = Sent \<lparr>res_status = st, res_json = error_body msg\<rparr>"

text \<open>A row as the JSON object the client library hands to the server; a column that is
  NULL reads as \<^verbatim>\<open>null\<close>.\<close>

definition or_null :: "json option \<Rightarrow> json" where
  "or_null x = (case x of None \<Rightarrow> JNull | Some v \<Rightarrow> v)"

definition str_or_null :: "jstring option \<Rightarrow> json" where
  "str_or_null x = (case x of None \<Rightarrow> JNull | Some s \<Rightarrow> JStr s)"

definition pedido_json :: "pedido \<Rightarrow> json" where
  "pedido_json r =
     JObj [(lit ''id'', JNum (int (p_id r)) 0), (lit ''created_at'', JNum (int (p_created_at r)) 0),
           (lit ''user_id'', JStr (p_user_id r)), (lit ''items_json'', str_or_null (p_items_json r)),
           (lit ''total'', or_null (p_total r)), (lit ''status'', JStr (p_status r)),
           (lit ''details_json'', str_or_null (p_details_json r))]"

definition pedido_finalizado_json :: "pedido_finalizado \<Rightarrow> json" where
  "pedido_finalizado_json r =
     JObj [(lit ''id'', JNum (int (f_id r)) 0), (lit ''created_at'', JNum (int (f_created_at r)) 0),
           (lit ''user_id'', JStr (f_user_id r)), (lit ''nome'', or_null (f_nome r)),
           (lit ''telefone'', or_null (f_telefone r)), (lit ''endereco'', or_null (f_endereco r)),
           (lit ''pagamento'', or_null (f_pagamento r)),
           (lit ''observacoes'', or_null (f_observacoes r)),
           (lit ''itens_json'', str_or_null (f_itens_json r)), (lit ''total'', or_null (f_total r))]"

definition menu_item_json :: "menu_item \<Rightarrow> json" where
  "menu_item_json m =
     JObj [(lit ''id'', JNum (int (m_id m)) 0), (lit ''name'', JStr (m_name m)),
           (lit ''description'', JStr (m_description m)), (lit ''price'', JNum (m_price m) 0),
           (lit ''category'', str_or_null (m_category m)),
           (lit ''image_url'', str_or_null (m_image_url m))]"

section \<open>The body parser\<close>

text \<open>
  \<^verbatim>\<open>app.use(express.json())\<close> comes first in both entry points, so the parser sees every
  request before any route does. It is a library outside the repository. What it does
  with a request is a \<open>body_parser\<close>: from the payload, either the status of the error it
  hands to the framework, or the value it leaves in \<^verbatim>\<open>req.body\<close>. The routes take the
  parser as a parameter, so that every theorem below holds for whatever the parser does.
  (The two \<^verbatim>\<open>express.static\<close> stages that follow it serve files, and pass on a request
  that names none, as the paths of the routes are taken to do.)
\<close>

type_synonym body_parser = "jstring option \<Rightarrow> nat + json option"

type_synonym route = "supabase \<Rightarrow> request \<Rightarrow> world \<Rightarrow> outcome \<times> world"

definition app_use :: "body_parser \<Rightarrow> route \<Rightarrow> supabase \<Rightarrow> incoming \<Rightarrow> world \<Rightarrow> outcome \<times> world" where
  "app_use parser r sb inc w =
     (case parser (payload inc) of
        Inl st \<Rightarrow> (Refused st, w)
      | Inr b \<Rightarrow> r sb \<lparr>authorization = header_authorization inc, body = b\<rparr> w)"

text \<open>
  \<^verbatim>\<open>express.json()\<close> as its documentation describes it with no options, on a payload
  that it can decode and that is within its size limit. A request with no JSON body is
  passed on unread; \<open>unread\<close> is what \<^verbatim>\<open>req.body\<close> then is, the empty object up to
  Express 4 and \<^verbatim>\<open>undefined\<close> from Express 5 on. An empty body reads as the empty
  object. Any other body must start, after white space, with a brace or a bracket, and
  must be JSON: if not, the error has the status 400.
\<close>

definition express_json :: "json option \<Rightarrow> body_parser" where
  "express_json unread p =
     (case p of
        None \<Rightarrow> Inr unread
      | Some text \<Rightarrow>
          if text = [] then Inr (Some (JObj []))
          else
            (case skip_ws text of
               [] \<Rightarrow> Inl 400
             | c # cs \<Rightarrow>
                 if c \<noteq> code (CHR ''{'') \<and> c \<noteq> code (CHR ''['') then Inl 400
                 else (case JSON_parse text of None \<Rightarrow> Inl 400 | Some v \<Rightarrow> Inr (Some v))))"

text \<open>\<^verbatim>\<open>const { a, b } = req.body\<close> throws a TypeError when \<^verbatim>\<open>req.body\<close> is
  \<^verbatim>\<open>undefined\<close> or \<^verbatim>\<open>null\<close>; the message names the first property of the pattern.\<close>

definition destructure_error :: "string \<Rightarrow> string \<Rightarrow> js_error" where
  "destructure_error prop what =
     TypeError (lit (''Cannot destructure property '' @ [CHR 0x27] @ prop @ [CHR 0x27] @ '' of ''
                      @ [CHR 0x27] @ ''req.body'' @ [CHR 0x27] @ '' as it is '' @ what @ ''.''))"

definition destructure :: "string \<Rightarrow> json option \<Rightarrow> js_error + json" where
  "destructure prop b =
     (case b of
        None \<Rightarrow> Inl (destructure_error prop ''undefined'')
      | Some JNull \<Rightarrow> Inl (destructure_error prop ''null'')
      | Some v \<Rightarrow> Inr v)"

section \<open>The authentication middleware\<close>

text \<open>\<^verbatim>\<open>authHeader && authHeader.split(' ')[1]\<close>: the header itself when it is
  \<^verbatim>\<open>undefined\<close> or empty, the second space-separated segment otherwise.\<close>

definition bearer_token :: "jstring option \<Rightarrow> jstring option" where
  "bearer_token authHeader =
     (case authHeader of
        None \<Rightarrow> None
      | Some h \<Rightarrow> if h = [] then Some [] else js_index (js_split (code (CHR '' '')) h) 1)"

text \<open>The middleware of both entry points, which differ in the two messages only.
  \<open>Inl\<close> is the response it sends; \<open>Inr\<close> is \<^verbatim>\<open>req.userId\<close> when it calls
  \<^verbatim>\<open>next()\<close>.\<close>

definition requireAuth_with ::
  "jstring \<Rightarrow> jstring \<Rightarrow> supabase \<Rightarrow> request \<Rightarrow> world \<Rightarrow> (outcome + jstring) \<times> world" where
  "requireAuth_with denied invalid sb req w =
     (case bearer_token (authorization req) of
        None \<Rightarrow> (Inl (send_error 401 denied), w)
      | Some token \<Rightarrow>
          if token = [] then (Inl (send_error 401 denied), w)
          else
            (case auth_getUser sb token w of (userAuth, w') \<Rightarrow>
               (case (gu_error userAuth, gu_user userAuth) of
                  (None, Some u) \<Rightarrow> (Inr (user_ident u), w')
                | _ \<Rightarrow> (Inl (send_error 401 invalid), w'))))"

text \<open>\<open>requireAuth\<close> of index.js\<close>

definition requireAuth :: "supabase \<Rightarrow> request \<Rightarrow> world \<Rightarrow> (outcome + jstring) \<times> world" where
  "requireAuth =
     requireAuth_with (lit ''Acesso negado.'') (lit (''Token inv'' @ [CHR 0xE1] @ ''lido.''))"

text \<open>\<open>requireAuth\<close> of the older entry point\<close>

definition requireAuth_part000 :: "supabase \<Rightarrow> request \<Rightarrow> world \<Rightarrow> (outcome + jstring) \<times> world" where
  "requireAuth_part000 =
     requireAuth_with (lit (''Acesso negado. Token n'' @ [CHR 0xE3] @ ''o fornecido.''))
       (lit (''Token inv'' @ [CHR 0xE1] @ ''lido ou expirado.''))"

text \<open>\<^verbatim>\<open>app.post(path, requireAuth, handler)\<close>: the handler runs when the middleware
  calls \<^verbatim>\<open>next()\<close>, with the identity it attached to the request.\<close>

definition guarded ::
  "(supabase \<Rightarrow> request \<Rightarrow> world \<Rightarrow> (outcome + jstring) \<times> world)
     \<Rightarrow> (supabase \<Rightarrow> jstring \<Rightarrow> request \<Rightarrow> world \<Rightarrow> outcome \<times> world) \<Rightarrow> route" where
  "guarded auth handler sb req w =
     (case auth sb req w of
        (Inl sent, w') \<Rightarrow> (sent, w')
      | (Inr userId, w') \<Rightarrow> handler sb userId req w')"

section \<open>Orders\<close>

text \<open>\<^verbatim>\<open>POST /api/pedidos\<close> of index.js\<close>

definition post_pedidos :: "supabase \<Rightarrow> jstring \<Rightarrow> request \<Rightarrow> world \<Rightarrow> outcome \<times> world" where
  "post_pedidos sb userId req w =
     (case destructure ''items'' (body req) of
        Inl exn \<Rightarrow> (Threw exn, w)
      | Inr b \<Rightarrow>
          (let items = get_prop b (lit ''items'');
               total = get_prop b (lit ''total'');
               details = get_prop b (lit ''details'')
           in if \<not> truthy items \<or> \<not> truthy total \<or> \<not> truthy details
              then (send_error 400 (lit ''Dados incompletos (itens, total ou detalhes faltando).''), w)
              else
                (case insert_pedidos sb userId (JSON_stringify items) total (lit ''Pendente'')
                        (JSON_stringify details) w of
                   (Inl e, w') \<Rightarrow> (send_error 500 (lit ''Erro ao criar pedido.''), w')
                 | (Inr row, w') \<Rightarrow>
                     (Sent \<lparr>res_status = 201,
                            res_json = JObj [(lit ''message'', JStr (lit ''Pedido criado!'')),
                                             (lit ''pedido'', pedido_json row)]\<rparr>, w'))))"

definition route_post_pedidos ::
  "body_parser \<Rightarrow> supabase \<Rightarrow> incoming \<Rightarrow> world \<Rightarrow> outcome \<times> world" where
  "route_post_pedidos parser = app_use parser (guarded requireAuth post_pedidos)"

text \<open>\<^verbatim>\<open>POST /api/finalizar\<close> of index.js\<close>

definition post_finalizar :: "supabase \<Rightarrow> jstring \<Rightarrow> request \<Rightarrow> world \<Rightarrow> outcome \<times> world" where
  "post_finalizar sb userId req w =
     (case destructure ''nome'' (body req) of
        Inl exn \<Rightarrow> (Threw exn, w)
      | Inr b \<Rightarrow>
          (let nome = get_prop b (lit ''nome'');
               telefone = get_prop b (lit ''telefone'');
               endereco = get_prop b (lit ''endereco'');
               pagamento = get_prop b (lit ''pagamento'');
               observacoes = get_prop b (lit ''observacoes'');
               itens = get_prop b (lit ''itens'');
               total = get_prop b (lit ''total'')
           in if \<not> truthy nome \<or> \<not> truthy telefone \<or> \<not> truthy endereco \<or> \<not> truthy pagamento
                 \<or> \<not> truthy itens \<or> \<not> truthy total
              then (send_error 400 (lit ''Dados incompletos.''), w)
              else
                (case insert_pedidos_finalizados sb userId nome telefone endereco pagamento
                        observacoes (JSON_stringify itens) total w of
                   (Inl e, w') \<Rightarrow> (send_error 500 (lit ''Erro ao finalizar pedido.''), w')
                 | (Inr row, w') \<Rightarrow>
                     (Sent \<lparr>res_status = 201,
                            res_json = JObj [(lit ''message'',
                                              JStr (lit ''Pedido finalizado com sucesso!'')),
                                             (lit ''pedido'', pedido_finalizado_json row)]\<rparr>, w'))))"

definition route_post_finalizar ::
  "body_parser \<Rightarrow> supabase \<Rightarrow> incoming \<Rightarrow> world \<Rightarrow> outcome \<times> world" where
  "route_post_finalizar parser = app_use parser (guarded requireAuth post_finalizar)"

text \<open>\<^verbatim>\<open>POST /api/pedidos\<close> of the older entry point, which asks for no details\<close>

definition post_pedidos_part000 :: "supabase \<Rightarrow> jstring \<Rightarrow> request \<Rightarrow> world \<Rightarrow> outcome \<times> world" where
  "post_pedidos_part000 sb userId req w =
     (case destructure ''items'' (body req) of
        Inl exn \<Rightarrow> (Threw exn, w)
      | Inr b \<Rightarrow>
          (let items = get_prop b (lit ''items'');
               total = get_prop b (lit ''total'')
           in if \<not> truthy items \<or> \<not> truthy total
              then (send_error 400
                      (lit (''O carrinho est'' @ [CHR 0xE1] @ '' vazio ou o total est'' @ [CHR 0xE1]
                              @ '' faltando.'')), w)
              else
                (case insert_pedidos sb userId (JSON_stringify items) total (lit ''Pendente'')
                        None w of
                   (Inl e, w') \<Rightarrow> (send_error 500 (lit ''Falha ao finalizar o pedido.''), w')
                 | (Inr row, w') \<Rightarrow>
                     (Sent \<lparr>res_status = 201,
                            res_json = JObj [(lit ''message'',
                                              JStr (lit ''Pedido finalizado com sucesso!'')),
                                             (lit ''pedido'', pedido_json row)]\<rparr>, w'))))"

definition route_post_pedidos_part000 ::
  "body_parser \<Rightarrow> supabase \<Rightarrow> incoming \<Rightarrow> world \<Rightarrow> outcome \<times> world" where
  "route_post_pedidos_part000 parser =
     app_use parser (guarded requireAuth_part000 post_pedidos_part000)"

text \<open>\<^verbatim>\<open>GET /api/pedidos\<close>, which only the older entry point has. The selected
  columns are id, total, status, created_at and items_json; \<^verbatim>\<open>JSON.parse\<close> turns a
  NULL into the text \<^verbatim>\<open>null\<close> before reading it.\<close>

definition items_text :: "pedido \<Rightarrow> jstring" where
  "items_text p = (case p_items_json p of None \<Rightarrow> lit ''null'' | Some s \<Rightarrow> s)"

definition pedido_formatado :: "pedido \<Rightarrow> json \<Rightarrow> json" where
  "pedido_formatado p items =
     JObj [(lit ''id'', JNum (int (p_id p)) 0), (lit ''total'', or_null (p_total p)),
           (lit ''status'', JStr (p_status p)), (lit ''created_at'', JNum (int (p_created_at p)) 0),
           (lit ''items_json'', str_or_null (p_items_json p)), (lit ''items'', items)]"

text \<open>\<^verbatim>\<open>pedidos.map(p => ({ ...p, items: JSON.parse(p.items_json) }))\<close>: the exception of the
  first row that does not parse ends the whole map.\<close>

fun pedidosFormatados :: "pedido list \<Rightarrow> js_error + json list" where
  "pedidosFormatados [] = Inr []"
| "pedidosFormatados (p # ps) =
     (case JSON_parse (items_text p) of
        None \<Rightarrow> Inl SyntaxError
      | Some items \<Rightarrow>
          (case pedidosFormatados ps of
             Inl e \<Rightarrow> Inl e
           | Inr rest \<Rightarrow> Inr (pedido_formatado p items # rest)))"

definition get_pedidos_part000 :: "supabase \<Rightarrow> jstring \<Rightarrow> request \<Rightarrow> world \<Rightarrow> outcome \<times> world" where
  "get_pedidos_part000 sb userId req w =
     (case select_pedidos sb userId w of
        (Inl e, w') \<Rightarrow> (send_error 500 (lit ''Falha ao carregar seus pedidos.''), w')
      | (Inr rows, w') \<Rightarrow>
          (case pedidosFormatados rows of
             Inl exn \<Rightarrow> (Threw exn, w')
           | Inr formatted \<Rightarrow> (Sent \<lparr>res_status = 200, res_json = JArr formatted\<rparr>, w')))"

definition route_get_pedidos_part000 ::
  "body_parser \<Rightarrow> supabase \<Rightarrow> incoming \<Rightarrow> world \<Rightarrow> outcome \<times> world" where
  "route_get_pedidos_part000 parser =
     app_use parser (guarded requireAuth_part000 get_pedidos_part000)"

section \<open>Registration\<close>

text \<open>Reading \<^verbatim>\<open>x.id\<close> where \<^verbatim>\<open>x\<close> is \<^verbatim>\<open>null\<close> throws a TypeError with this message.\<close>

definition null_read :: "string \<Rightarrow> jstring" where
  "null_read prop =
     lit (''Cannot read properties of null (reading '' @ [CHR 0x27] @ prop @ [CHR 0x27] @ '')'')"

text \<open>The \<^verbatim>\<open>catch\<close> block of the registration handler of index.js, given the message
  of the error caught.\<close>

definition register_catch :: "jstring \<Rightarrow> outcome" where
  "register_catch message =
     (if js_includes message (lit ''Unable to validate email address'')
      then send_error 400
             (lit (''O e-mail informado '' @ [CHR 0xE9] @ '' inv'' @ [CHR 0xE1]
                     @ ''lido. Verifique se est'' @ [CHR 0xE1] @ '' no formato correto.''))
      else if js_includes message (lit ''invalid format'')
      then send_error 400 (lit (''Formato de e-mail inv'' @ [CHR 0xE1] @ ''lido.''))
      else send_error 400
             (if message \<noteq> [] then message else lit ''Erro no processo de cadastro.''))"

text \<open>\<^verbatim>\<open>POST /api/auth/register\<close> of index.js\<close>

definition post_register :: route where
  "post_register sb req w =
     (case destructure ''email'' (body req) of
        Inl exn \<Rightarrow> (Threw exn, w)
      | Inr b \<Rightarrow>
     (let email = get_prop b (lit ''email'');
          password = get_prop b (lit ''password'');
          nome = get_prop b (lit ''nome'')
      in if \<not> truthy email \<or> \<not> truthy password \<or> \<not> truthy nome
         then (send_error 400 (lit (''Campos obrigat'' @ [CHR 0xF3] @ ''rios faltando.'')), w)
         else
           (case auth_signUp sb email password w of (signUp, w1) \<Rightarrow>
              (case su_error signUp of
                 Some message \<Rightarrow> (register_catch message, w1)
               | None \<Rightarrow>
                   (case su_user signUp of
                      None \<Rightarrow> (register_catch (null_read ''id''), w1)
                    | Some u \<Rightarrow>
                        (case insert_perfis sb (user_ident u) nome email None w1 of
                           (Some profileError, w2) \<Rightarrow>
                             (send_error 500
                                (lit (''Usu'' @ [CHR 0xE1]
                                        @ ''rio criado, mas falha ao salvar perfil.'')), w2)
                         | (None, w2) \<Rightarrow>
                             (case auth_signInWithPassword sb email password w2 of (signIn, w3) \<Rightarrow>
                                (case si_error signIn of
                                   Some loginError \<Rightarrow>
                                     (send_error 500
                                        (lit (''Usu'' @ [CHR 0xE1]
                                                @ ''rio criado, mas falha ao gerar token.'')), w3)
                                 | None \<Rightarrow>
                                     (case si_session signIn of
                                        None \<Rightarrow> (register_catch (null_read ''access_token''), w3)
                                      | Some token \<Rightarrow>
                                          (Sent \<lparr>res_status = 201,
                                                 res_json =
                                                   JObj [(lit ''message'',
                                                          JStr (lit ''Cadastro realizado com sucesso!'')),
                                                         (lit ''token'', JStr token)]\<rparr>,
                                           w3))))))))))"

text \<open>The \<^verbatim>\<open>catch\<close> block of the older entry point\<close>

definition register_catch_part000 :: "jstring \<Rightarrow> outcome" where
  "register_catch_part000 message =
     send_error 400 (if message \<noteq> [] then message else lit ''Erro no processo de cadastro.'')"

text \<open>\<^verbatim>\<open>POST /api/auth/register\<close> of the older entry point: the token is the one of the
  session that the sign-up itself opened.\<close>

definition post_register_part000 :: route where
  "post_register_part000 sb req w =
     (case destructure ''email'' (body req) of
        Inl exn \<Rightarrow> (Threw exn, w)
      | Inr b \<Rightarrow>
     (let email = get_prop b (lit ''email'');
          password = get_prop b (lit ''password'');
          nome = get_prop b (lit ''nome'');
          telefone = get_prop b (lit ''telefone'')
      in if \<not> truthy email \<or> \<not> truthy password \<or> \<not> truthy nome
         then (send_error 400 (lit (''Campos obrigat'' @ [CHR 0xF3] @ ''rios faltando.'')), w)
         else
           (case auth_signUp sb email password w of (authData, w1) \<Rightarrow>
              (case su_error authData of
                 Some message \<Rightarrow> (register_catch_part000 message, w1)
               | None \<Rightarrow>
                   (case su_user authData of
                      None \<Rightarrow> (register_catch_part000 (null_read ''id''), w1)
                    | Some u \<Rightarrow>
                        (case insert_perfis sb (user_ident u) nome email
                                (if truthy telefone then telefone else Some JNull) w1 of
                           (Some profileError, w2) \<Rightarrow>
                             (send_error 500
                                (lit (''Usu'' @ [CHR 0xE1]
                                        @ ''rio criado, mas falha ao salvar dados adicionais.'')), w2)
                         | (None, w2) \<Rightarrow>
                             (case su_session authData of
                                None \<Rightarrow> (register_catch_part000 (null_read ''access_token''), w2)
                              | Some token \<Rightarrow>
                                  (Sent \<lparr>res_status = 201,
                                         res_json =
                                           JObj [(lit ''message'',
                                                  JStr (lit ''Cadastro realizado com sucesso!'')),
                                                 (lit ''token'', JStr token)]\<rparr>, w2))))))))"

section \<open>The menu\<close>

text \<open>
  The accumulator of the \<^verbatim>\<open>reduce\<close> starts as the object literal \<^verbatim>\<open>{}\<close>, whose
  prototype is \<^verbatim>\<open>Object.prototype\<close>: \<^verbatim>\<open>acc[cat]\<close> finds the own property \<open>cat\<close>, or
  else the property of that name that every object inherits. The inherited ones are these;
  each is a function or an object, so it is truthy and has no \<^verbatim>\<open>push\<close>.
\<close>

definition object_prototype_keys :: "jstring list" where
  "object_prototype_keys =
     [lit ''constructor'', lit ''__defineGetter__'', lit ''__defineSetter__'',
      lit ''hasOwnProperty'', lit ''__lookupGetter__'', lit ''__lookupSetter__'',
      lit ''isPrototypeOf'', lit ''propertyIsEnumerable'', lit ''toString'', lit ''valueOf'',
      lit ''__proto__'', lit ''toLocaleString'']"

text \<open>\<^verbatim>\<open>item.category || "Outros"\<close>\<close>

definition category_of :: "menu_item \<Rightarrow> jstring" where
  "category_of item =
     (case m_category item of
        None \<Rightarrow> lit ''Outros''
      | Some c \<Rightarrow> if c = [] then lit ''Outros'' else c)"

text \<open>The \<^verbatim>\<open>reduce\<close>, with the own properties of the accumulator as its state. The
  message of the TypeError names the expression whose \<^verbatim>\<open>push\<close> is called, which is
  \<^verbatim>\<open>acc[cat]\<close> in index.js and \<^verbatim>\<open>acc[category]\<close> in the older entry point.\<close>

fun agrupar :: "string \<Rightarrow> (jstring \<times> menu_item list) list \<Rightarrow> menu_item list
                  \<Rightarrow> js_error + (jstring \<times> menu_item list) list" where
  "agrupar expr acc [] = Inr acc"
| "agrupar expr acc (item # items) =
     (let cat = category_of item
      in case map_of acc cat of
           Some xs \<Rightarrow> agrupar expr (set_prop acc cat (xs @ [item])) items
         | None \<Rightarrow>
             if cat \<in> set object_prototype_keys
             then Inl (TypeError (lit (expr @ ''.push is not a function'')))
             else agrupar expr (set_prop acc cat [item]) items)"

definition agrupado_json :: "(jstring \<times> menu_item list) list \<Rightarrow> json" where
  "agrupado_json acc = JObj (map (\<lambda>(cat, items). (cat, JArr (map menu_item_json items))) acc)"

text \<open>\<^verbatim>\<open>GET /api/menu\<close>, which differs between the entry points in the names of its
  variables only\<close>

definition get_menu_with :: "string \<Rightarrow> route" where
  "get_menu_with expr sb req w =
     (case select_menu sb w of
        (Inl e, w') \<Rightarrow>
          (send_error 500 (lit (''Falha ao carregar o card'' @ [CHR 0xE1] @ ''pio.'')), w')
      | (Inr rows, w') \<Rightarrow>
          (case agrupar expr [] rows of
             Inl exn \<Rightarrow> (Threw exn, w')
           | Inr acc \<Rightarrow> (Sent \<lparr>res_status = 200, res_json = agrupado_json acc\<rparr>, w')))"

definition get_menu :: route where
  "get_menu = get_menu_with ''acc[cat]''"

definition get_menu_part000 :: route where
  "get_menu_part000 = get_menu_with ''acc[category]''"

section \<open>The spec's own notions, and a sample service\<close>

text \<open>The header form the spec names: the word Bearer, one space, and a token.\<close>

definition spec_bearer_form :: "jstring \<Rightarrow> bool" where
  "spec_bearer_form h = (take 7 h = lit ''Bearer '' \<and> drop 7 h \<noteq> [])"

text \<open>A service that knows one token, refuses every sign-up with the message Supabase
  gives for a malformed address, and whose store accepts every call; and a world with
  empty tables.\<close>

definition example_supabase :: supabase where
  "example_supabase =
     \<lparr>getUser_reply =
        (\<lambda>t. if t = lit ''tok'' then \<lparr>gu_error = None, gu_user = Some \<lparr>user_ident = lit ''u1''\<rparr>\<rparr>
              else \<lparr>gu_error = Some (lit ''invalid JWT''), gu_user = None\<rparr>),
      signUp_reply = (\<lambda>email password.
                        \<lparr>su_error = Some (lit ''Unable to validate email address: invalid format''),
                          su_user = None, su_session = None\<rparr>),
      signIn_reply = (\<lambda>email password. \<lparr>si_error = None, si_session = Some (lit ''tok'')\<rparr>),
      db_error = (\<lambda>c. None)\<rparr>"

definition example_world :: world where
  "example_world =
     \<lparr>pedidos = [], pedidos_finalizados = [], perfis = [], menu = [], next_id = 1, now = 100,
      calls = []\<rparr>"

text \<open>The body parser of the samples: \<^verbatim>\<open>express.json()\<close> in a framework that leaves
  \<^verbatim>\<open>req.body\<close> undefined when there is no body to read.\<close>

definition example_parser :: body_parser where
  "example_parser = express_json None"

text \<open>A request whose body is the text that \<^verbatim>\<open>JSON.stringify\<close> gives for a value.\<close>

definition json_request :: "jstring option \<Rightarrow> json \<Rightarrow> incoming" where
  "json_request h v = \<lparr>header_authorization = h, payload = Some (stringify v)\<rparr>"

text \<open>A submission with an empty cart, for index.js and for the older entry point.\<close>

definition empty_cart_body :: json where
  "empty_cart_body =
     JObj [(lit ''items'', JArr []), (lit ''total'', JNum 10 0), (lit ''details'', JObj [])]"

definition empty_cart_body_part000 :: json where
  "empty_cart_body_part000 = JObj [(lit ''items'', JArr []), (lit ''total'', JNum 10 0)]"

text \<open>Two submissions that differ in a user_id field of the body only.\<close>

definition honest_body :: json where
  "honest_body =
     JObj [(lit ''items'', JArr [JNum 7 0]), (lit ''total'', JNum 10 0),
           (lit ''details'', JStr (lit ''mesa 4''))]"

definition spoofed_body :: json where
  "spoofed_body =
     JObj [(lit ''user_id'', JStr (lit ''u2'')), (lit ''items'', JArr [JNum 7 0]),
           (lit ''total'', JNum 10 0), (lit ''details'', JStr (lit ''mesa 4''))]"

definition honest_request :: incoming where
  "honest_request = json_request (Some (lit ''Bearer tok'')) honest_body"

definition spoofed_request :: incoming where
  "spoofed_request = json_request (Some (lit ''Bearer tok'')) spoofed_body"

text \<open>A world with orders of two users, and one where an order of the first user holds a
  text that is not JSON.\<close>

definition history_world :: world where
  "history_world =
     \<lparr>pedidos =
        [\<lparr>p_id = 1, p_created_at = 5, p_user_id = lit ''u1'', p_items_json = Some (lit ''[1]''),
          p_total = Some (JNum 10 0), p_status = lit ''Pendente'', p_details_json = None\<rparr>,
         \<lparr>p_id = 2, p_created_at = 9, p_user_id = lit ''u2'', p_items_json = Some (lit ''[2]''),
          p_total = Some (JNum 20 0), p_status = lit ''Pendente'', p_details_json = None\<rparr>,
         \<lparr>p_id = 3, p_created_at = 7, p_user_id = lit ''u1'', p_items_json = Some (lit ''[3]''),
          p_total = Some (JNum 30 0), p_status = lit ''Pendente'', p_details_json = None\<rparr>],
      pedidos_finalizados = [], perfis = [], menu = [], next_id = 4, now = 100, calls = []\<rparr>"

definition corrupt_row :: pedido where
  "corrupt_row =
     \<lparr>p_id = 2, p_created_at = 7, p_user_id = lit ''u1'', p_items_json = Some (lit ''[1,''),
      p_total = Some (JNum 30 0), p_status = lit ''Pendente'', p_details_json = None\<rparr>"

definition corrupt_world :: world where
  "corrupt_world =
     \<lparr>pedidos =
        [\<lparr>p_id = 1, p_created_at = 5, p_user_id = lit ''u1'', p_items_json = Some (lit ''[1]''),
          p_total = Some (JNum 10 0), p_status = lit ''Pendente'', p_details_json = None\<rparr>,
         corrupt_row],
      pedidos_finalizados = [], perfis = [], menu = [], next_id = 3, now = 100, calls = []\<rparr>"

text \<open>A request for the order history, which has no body; one with no Authorization
  header; and two submissions whose body is not JSON, one with no Authorization header
  and one with the bare token as its header.\<close>

definition history_request :: incoming where
  "history_request = \<lparr>header_authorization = Some (lit ''Bearer tok''), payload = None\<rparr>"

definition anonymous_request :: incoming where
  "anonymous_request = \<lparr>header_authorization = None, payload = None\<rparr>"

definition malformed_request :: incoming where
  "malformed_request = \<lparr>header_authorization = None, payload = Some (lit ''{'')\<rparr>"

text \<open>A registration, and a service whose sign-up refuses with the message for an address
  already in use.\<close>

definition register_body :: json where
  "register_body =
     JObj [(lit ''email'', JStr (lit ''ana@exemplo'')), (lit ''password'', JStr (lit ''segredo'')),
           (lit ''nome'', JStr (lit ''Ana''))]"

definition register_request :: request where
  "register_request = \<lparr>authorization = None, body = Some register_body\<rparr>"

definition duplicate_supabase :: supabase where
  "duplicate_supabase =
     example_supabase
       \<lparr>signUp_reply := (\<lambda>email password.
                          \<lparr>su_error = Some (lit ''User already registered''), su_user = None,
                            su_session = None\<rparr>)\<rparr>"

text \<open>The submission of the spec's example: one cart line, total 10.\<close>

definition cart_items :: json where
  "cart_items =
     JArr [JObj [(lit ''item_id'', JNum 1 0), (lit ''quantity'', JNum 2 0),
                 (lit ''unit_price'', JNum 5 0)]]"

definition cart_body :: json where
  "cart_body =
     JObj [(lit ''items'', cart_items), (lit ''total'', JNum 10 0),
           (lit ''details'', JObj [(lit ''mesa'', JNum 4 0)])]"

definition cart_request :: incoming where
  "cart_request = json_request (Some (lit ''Bearer tok'')) cart_body"

text \<open>A menu row, and the request for the menu.\<close>

definition bebida :: "nat \<Rightarrow> jstring option \<Rightarrow> menu_item" where
  "bebida i c = \<lparr>m_id = i, m_name = lit ''Suco'', m_description = lit ''Suco de laranja'',
                 m_price = 8, m_category = c, m_image_url = None\<rparr>"

definition menu_request :: request where
  "menu_request = \<lparr>authorization = None, body = None\<rparr>"

text \<open>Two notions for the proofs about JSON text: what may follow a value (nothing, or a
  comma or a closing bracket), and the first code unit of a serialized value.\<close>

definition stops :: "jstring \<Rightarrow> bool" where
  "stops r =
     (r = [] \<or> hd r = code (CHR '','') \<or> hd r = code (CHR '']'') \<or> hd r = code (CHR ''}''))"

definition opens_value :: "nat \<Rightarrow> bool" where
  "opens_value c =
     (c = code (CHR ''n'') \<or> c = code (CHR ''t'') \<or> c = code (CHR ''f'') \<or> c = 0x22
      \<or> c = code (CHR ''['') \<or> c = code (CHR ''{'') \<or> c = code (CHR ''-'') \<or> is_digit c)"

section \<open>Reading back what was written\<close>

declare show_nat.simps [simp del]

declare parse_value.simps [simp del] parse_elements.simps [simp del] parse_members.simps [simp del]

lemmas parse_simps = parse_value.simps parse_elements.simps parse_members.simps

subsection \<open>Numbers\<close>

lemma digit_char_props:
  assumes "d < 10"
  shows "is_digit (digit_char d)" and "digit_val (digit_char d) = d"
    and "(digit_char d = 48) = (d = 0)"
    and "digit_char d \<noteq> 45"
  using assms by (auto simp: digit_char_def is_digit_def digit_val_def)

lemma show_nat_unfold:
  "show_nat n = (if n < 10 then [digit_char n] else show_nat (n div 10) @ [digit_char (n mod 10)])"
  by (rule show_nat.simps)

lemma show_nat_not_Nil: "show_nat n \<noteq> []"
  by (subst show_nat_unfold) simp

lemma show_nat_digits: "list_all is_digit (show_nat n)"
proof (induction n rule: show_nat.induct)
  case (1 n)
  then show ?case
    by (subst show_nat_unfold) (simp add: digit_char_props)
qed

lemma read_nat_snoc: "read_nat (ds @ [c]) = 10 * read_nat ds + digit_val c"
  by (simp add: read_nat_def)

lemma read_show_nat: "read_nat (show_nat n) = n"
proof (induction n rule: show_nat.induct)
  case (1 n)
  show ?case
  proof (cases "n < 10")
    case True
    then show ?thesis
      by (subst show_nat_unfold) (simp add: read_nat_def digit_char_props)
  next
    case False
    with 1 have "read_nat (show_nat (n div 10)) = n div 10" by simp
    with False show ?thesis
      by (subst show_nat_unfold) (simp add: read_nat_snoc digit_char_props)
  qed
qed

lemma hd_show_nat_zero: "hd (show_nat n) = 48 \<Longrightarrow> n = 0"
proof (induction n rule: show_nat.induct)
  case (1 n)
  show ?case
  proof (cases "n < 10")
    case True
    with 1(2) show ?thesis
      by (subst (asm) show_nat_unfold) (simp add: digit_char_props)
  next
    case False
    with 1(2) have "hd (show_nat (n div 10)) = 48"
      by (subst (asm) show_nat_unfold) (simp add: show_nat_not_Nil)
    with 1(1) False have "n div 10 = 0" by simp
    with False show ?thesis by simp
  qed
qed

lemma last_show_nat: "last (show_nat n) = digit_char (n mod 10)"
  by (subst show_nat_unfold) simp

lemma length_show_nat: "n < 10 ^ k \<Longrightarrow> 0 < k \<Longrightarrow> length (show_nat n) \<le> k"
proof (induction n arbitrary: k rule: show_nat.induct)
  case (1 n)
  show ?case
  proof (cases "n < 10")
    case True
    then show ?thesis using 1(3) by (subst show_nat_unfold) simp
  next
    case False
    obtain j where k: "k = Suc j" using 1(3) by (cases k) auto
    have "j \<noteq> 0" using 1(2) False k by (cases j) auto
    moreover have "n div 10 < 10 ^ j" using 1(2) k by (simp add: less_mult_imp_div_less mult.commute)
    ultimately have "length (show_nat (n div 10)) \<le> j"
      using 1(1) [OF False, of j] by simp
    then show ?thesis using False k by (subst show_nat_unfold) simp
  qed
qed

lemma read_nat_append: "read_nat (a @ b) = read_nat a * 10 ^ length b + read_nat b"
proof (induction b rule: rev_induct)
  case Nil
  then show ?case by (simp add: read_nat_def)
next
  case (snoc c b)
  have "read_nat (a @ b @ [c]) = 10 * read_nat (a @ b) + digit_val c"
    using read_nat_snoc [of "a @ b" c] by simp
  then show ?case
    using snoc by (simp add: read_nat_snoc algebra_simps)
qed

lemma read_nat_zeros: "read_nat (replicate z (48)) = 0"
proof (induction z)
  case 0
  then show ?case by (simp add: read_nat_def)
next
  case (Suc z)
  have "replicate (Suc z) (48 :: nat) = replicate z 48 @ [48]"
    by (simp add: replicate_append_same)
  then show ?case
    using Suc by (simp only: read_nat_snoc) (simp add: digit_val_def)
qed

lemma read_nat_leading_zeros: "read_nat (replicate z (48) @ ds) = read_nat ds"
  by (simp add: read_nat_append read_nat_zeros)

lemma strip_zeros_last: "ds \<noteq> [] \<Longrightarrow> last ds \<noteq> 48 \<Longrightarrow> strip_zeros ds = ds"
  by (cases ds rule: rev_cases) (simp_all add: strip_zeros_def)

lemma strip_zeros_pad:
  "strip_zeros ds @ replicate (length ds - length (strip_zeros ds)) (48) = ds"
proof (induction ds rule: rev_induct)
  case Nil
  then show ?case by (simp add: strip_zeros_def)
next
  case (snoc c ds)
  show ?case
  proof (cases "c = 48")
    case True
    then have s: "strip_zeros (ds @ [c]) = strip_zeros ds"
      by (simp add: strip_zeros_def)
    have le: "length (strip_zeros ds) \<le> length ds"
      by (simp add: strip_zeros_def length_dropWhile_le [of _ "rev ds", simplified])
    have "replicate (Suc (length ds) - length (strip_zeros ds)) (48 :: nat)
            = replicate (length ds - length (strip_zeros ds)) 48 @ [48]"
      using le by (simp add: Suc_diff_le replicate_append_same)
    then show ?thesis
      using snoc True s by simp
  next
    case False
    then show ?thesis by (simp add: strip_zeros_def)
  qed
qed

lemma strip_zeros_length: "length (strip_zeros ds) \<le> length ds"
  by (simp add: strip_zeros_def length_dropWhile_le [of _ "rev ds", simplified])

lemma stops_no_digit: "stops r \<Longrightarrow> takeWhile is_digit r = [] \<and> dropWhile is_digit r = r"
  by (cases r) (auto simp: stops_def is_digit_def)

lemma takeWhile_digits_then:
  "list_all is_digit ds \<Longrightarrow> takeWhile is_digit r = [] \<Longrightarrow> takeWhile is_digit (ds @ r) = ds"
  by (induction ds) simp_all

lemma dropWhile_digits_then:
  "list_all is_digit ds \<Longrightarrow> dropWhile is_digit r = r \<Longrightarrow> dropWhile is_digit (ds @ r) = r"
  by (induction ds) simp_all

lemma not_digit_head:
  "\<not> is_digit c \<Longrightarrow> takeWhile is_digit (c # r) = [] \<and> dropWhile is_digit (c # r) = c # r"
  by simp

lemma strip_scale_kept: "m mod 10 \<noteq> 0 \<Longrightarrow> 0 < d \<Longrightarrow> strip_scale m d = (m, d)"
  by (cases d) simp_all

lemma scaled_fraction: "m mod 10 \<noteq> 0 \<Longrightarrow> 0 < d \<Longrightarrow> scaled m (- int d) = (m, d)"
  by (auto simp: scaled_def strip_scale_kept)

lemma scaled_integer: "scaled m 0 = (m, 0)"
  by (simp add: scaled_def)

lemma stops_head: "stops r \<Longrightarrow> r = c # cs \<Longrightarrow> c \<noteq> 46 \<and> c \<noteq> 101 \<and> c \<noteq> 69"
  by (auto simp: stops_def)

lemma parse_fraction_none: "stops r \<Longrightarrow> parse_fraction r = Some ([], r)"
  by (cases r) (auto simp: parse_fraction_def dest: stops_head)

lemma digits_then_stop:
  assumes "list_all is_digit ds" and "stops r"
  shows "takeWhile is_digit (ds @ r) = ds" and "dropWhile is_digit (ds @ r) = r"
  using assms by (simp_all add: takeWhile_digits_then dropWhile_digits_then stops_no_digit)

lemma digits_then_char:
  assumes "list_all is_digit ds" and "\<not> is_digit c"
  shows "takeWhile is_digit (ds @ c # r) = ds" and "dropWhile is_digit (ds @ c # r) = c # r"
  using assms by (simp_all add: takeWhile_digits_then dropWhile_digits_then)

lemma marks_not_digits: "\<not> is_digit (46)" "\<not> is_digit (101)" "\<not> is_digit (45)"
  by (simp_all add: is_digit_def)

lemma parse_fraction_digits:
  assumes "list_all is_digit fs" and "fs \<noteq> []" and "\<not> is_digit c"
  shows "parse_fraction (46 # fs @ c # r) = Some (fs, c # r)"
  using assms by (simp add: parse_fraction_def digits_then_char)

lemma parse_fraction_digits_stop:
  assumes "list_all is_digit fs" and "fs \<noteq> []" and "stops r"
  shows "parse_fraction (46 # fs @ r) = Some (fs, r)"
  using assms by (simp add: parse_fraction_def digits_then_stop)

lemma parse_exponent_minus:
  assumes "list_all is_digit es" and "es \<noteq> []" and "stops r"
  shows "parse_exponent (45 # es @ r) = Some (- int (read_nat es), r)"
  using assms by (simp add: parse_exponent_def digits_then_stop)

lemma no_exponent_follows:
  "stops r \<Longrightarrow>
   (case r of [] \<Rightarrow> Some (x, r)
    | c # cs \<Rightarrow> if c = code (CHR ''e'') \<or> c = code (CHR ''E'') then f cs else Some (x, r))
     = Some (x, r)"
  by (cases r) (auto dest: stops_head)

lemma parse_unsigned_plain:
  assumes "list_all is_digit ds" and "ds \<noteq> []" and "\<not> (hd ds = 48 \<and> length ds > 1)"
    and "stops r"
  shows "parse_unsigned (ds @ r) = Some (scaled (read_nat ds) 0, r)"
  unfolding parse_unsigned_def Let_def digits_then_stop [OF assms(1,4)]
    parse_fraction_none [OF assms(4)]
  using assms(2,3) by (simp add: no_exponent_follows [OF assms(4)])

lemma parse_unsigned_point:
  assumes "list_all is_digit ds" and "ds \<noteq> []" and "\<not> (hd ds = 48 \<and> length ds > 1)"
    and "list_all is_digit fs" and "fs \<noteq> []" and "stops r"
  shows "parse_unsigned (ds @ 46 # fs @ r) = Some (scaled (read_nat (ds @ fs)) (- int (length fs)), r)"
  unfolding parse_unsigned_def Let_def digits_then_char [OF assms(1) marks_not_digits(1)]
    parse_fraction_digits_stop [OF assms(4,5,6)]
  using assms(2,3) by (simp add: no_exponent_follows [OF assms(6)])

lemma parse_unsigned_exponent:
  assumes "list_all is_digit ds" and "ds \<noteq> []" and "\<not> (hd ds = 48 \<and> length ds > 1)"
    and "list_all is_digit es" and "es \<noteq> []" and "stops r"
  shows "parse_unsigned (ds @ 101 # 45 # es @ r)
           = Some (scaled (read_nat ds) (- int (read_nat es)), r)"
  using assms parse_exponent_minus [OF assms(4,5,6)]
  by (simp add: parse_unsigned_def digits_then_char marks_not_digits parse_fraction_def)

lemma parse_unsigned_point_exponent:
  assumes "list_all is_digit ds" and "ds \<noteq> []" and "\<not> (hd ds = 48 \<and> length ds > 1)"
    and "list_all is_digit fs" and "fs \<noteq> []"
    and "list_all is_digit es" and "es \<noteq> []" and "stops r"
  shows "parse_unsigned (ds @ 46 # fs @ 101 # 45 # es @ r)
           = Some (scaled (read_nat (ds @ fs)) (- int (read_nat es) - int (length fs)), r)"
  using assms(1-5) parse_exponent_minus [OF assms(6,7,8)]
    parse_fraction_digits [OF assms(4,5) marks_not_digits(2), of "45 # es @ r"]
  by (simp add: parse_unsigned_def digits_then_char marks_not_digits)

lemma show_nat_no_leading_zero: "0 < m \<Longrightarrow> \<not> (hd (show_nat m) = 48 \<and> length (show_nat m) > 1)"
  using hd_show_nat_zero [of m] by auto

lemma parse_unsigned_show_positive:
  assumes "0 < m" and "num_ok (int m) d" and "stops r"
  shows "parse_unsigned (show_positive m d @ r) = Some ((m, d), r)"
proof -
  let ?ds = "show_nat m"
  let ?L = "length ?ds"
  note dig = show_nat_digits [of m]
  note ne = show_nat_not_Nil [of m]
  note lead = show_nat_no_leading_zero [OF assms(1)]
  have val: "read_nat ?ds = m" by (rule read_show_nat)
  show ?thesis
  proof (cases "d = 0")
    case True
    with assms(2) have "m < 10 ^ 21"
      by (simp add: num_ok_def)
    then have L: "?L \<le> 21"
      by (intro length_show_nat) simp_all
    have k: "length (strip_zeros ?ds) \<le> ?L"
      by (rule strip_zeros_length)
    have "show_positive m d = strip_zeros ?ds @ replicate (?L - length (strip_zeros ?ds)) (48)"
      using True L k by (simp add: show_positive_def Let_def nat_diff_distrib' of_nat_diff)
    then have "show_positive m d = ?ds"
      by (simp add: strip_zeros_pad)
    then show ?thesis
      using True parse_unsigned_plain [OF dig ne lead assms(3)] assms(1)
      by (simp add: val scaled_def)
  next
    case False
    with assms(2) have im: "int m mod 10 \<noteq> 0" and small: "m < 10 ^ 17"
      by (simp_all add: num_ok_def)
    have "int (m mod 10) = int m mod 10"
      by (simp add: zmod_int)
    with im have m10: "m mod 10 \<noteq> 0"
      by (metis of_nat_0)
    from small have L: "?L \<le> 17"
      by (intro length_show_nat) simp_all
    have L1: "1 \<le> ?L" using ne by (cases ?ds) auto
    have "last ?ds \<noteq> 48"
      using m10 by (simp add: last_show_nat digit_char_props)
    then have s: "strip_zeros ?ds = ?ds"
      using ne by (intro strip_zeros_last)
    have sc: "scaled m (- int d) = (m, d)"
      using m10 False by (intro scaled_fraction) simp_all
    consider (split) "d < ?L" | (zeros) "?L \<le> d" "d < ?L + 6" | (expo) "?L + 6 \<le> d"
      by linarith
    then show ?thesis
    proof cases
      case split
      let ?n = "?L - d"
      have shown: "show_positive m d = take ?n ?ds @ 46 # drop ?n ?ds"
        using split False L by (simp add: show_positive_def Let_def s nat_diff_distrib' of_nat_diff)
      have i: "list_all is_digit (take ?n ?ds)" "take ?n ?ds \<noteq> []"
        "list_all is_digit (drop ?n ?ds)" "drop ?n ?ds \<noteq> []"
        using dig ne split False
        by (auto simp: list_all_iff dest: in_set_takeD in_set_dropD)
      have hd: "hd (take ?n ?ds) = hd ?ds"
        using split by (cases ?ds) (auto simp: take_Cons')
      have lead': "\<not> (hd (take ?n ?ds) = 48 \<and> length (take ?n ?ds) > 1)"
        using hd hd_show_nat_zero [of m] assms(1) by auto
      have "length (drop ?n ?ds) = d"
        using split by simp
      then show ?thesis
        using parse_unsigned_point [OF i(1,2) lead' i(3,4) assms(3)] shown val sc
        by simp
    next
      case zeros
      let ?z = "d - ?L"
      have shown: "show_positive m d = [48] @ 46 # (replicate ?z (48) @ ?ds)"
        using zeros False L L1
        by (simp add: show_positive_def Let_def s nat_diff_distrib' of_nat_diff)
      have i: "list_all is_digit [48]" "[48] \<noteq> []" "\<not> (hd [48] = 48 \<and> length [48] > 1)"
        "list_all is_digit (replicate ?z (48) @ ?ds)" "replicate ?z (48) @ ?ds \<noteq> []"
        using dig ne by (auto simp: is_digit_def list_all_iff)
      have "length (replicate ?z (48) @ ?ds) = d"
        using zeros by simp
      moreover have "read_nat ([48] @ replicate ?z (48) @ ?ds) = m"
        using read_nat_leading_zeros [of "Suc ?z" ?ds] val by simp
      ultimately show ?thesis
        using parse_unsigned_point [OF i assms(3)] shown sc
        by simp
    next
      case expo
      let ?e = "show_nat (Suc d - ?L)"
      have e: "list_all is_digit ?e" "?e \<noteq> []" "read_nat ?e = Suc d - ?L"
        by (simp_all add: show_nat_digits show_nat_not_Nil read_show_nat)
      have n: "\<bar>int ?L - int d - 1\<bar> = int (Suc d - ?L)"
        using expo by simp
      obtain c cs where ds: "?ds = c # cs" using ne by (cases ?ds) auto
      have s': "strip_zeros (c # cs) = c # cs" using s ds by simp
      have c: "list_all is_digit [c]" "[c] \<noteq> []" "\<not> (hd [c] = 48 \<and> length [c] > 1)"
        using dig ds by simp_all
      show ?thesis
      proof (cases "cs = []")
        case True
        then have L: "?L = 1" using ds by simp
        have shown: "show_positive m d = [c] @ 101 # 45 # ?e"
          using expo False L ds True n s'
          by (simp add: show_positive_def Let_def)
        have "scaled (read_nat [c]) (- int (read_nat ?e)) = (m, d)"
          using sc val ds True e(3) L expo by simp
        then show ?thesis
          using parse_unsigned_exponent [OF c e(1,2) assms(3)] shown by simp
      next
        case cs: False
        have nd: "nat (int d - int (length cs)) = d - length cs"
          by linarith
        have shown: "show_positive m d = [c] @ 46 # cs @ 101 # 45 # ?e"
          using expo False ds cs n s'
          by (simp add: show_positive_def Let_def nd)
        have f: "list_all is_digit cs" using dig ds by simp
        have "- int (read_nat ?e) - int (length cs) = - int d"
          using e(3) ds expo by simp
        then have "scaled (read_nat ([c] @ cs)) (- int (read_nat ?e) - int (length cs)) = (m, d)"
          using sc val ds by simp
        then show ?thesis
          using parse_unsigned_point_exponent [OF c f cs e(1,2) assms(3)] shown by simp
      qed
    qed
  qed
qed

lemma strip_zeros_head:
  assumes "ds \<noteq> []" and "hd ds \<noteq> 48"
  shows "strip_zeros ds \<noteq> []" and "hd (strip_zeros ds) = hd ds"
proof -
  let ?s = "strip_zeros ds"
  have pad: "?s @ replicate (length ds - length ?s) (48) = ds"
    by (rule strip_zeros_pad)
  show ne: "?s \<noteq> []"
  proof
    assume "?s = []"
    with pad have "ds = replicate (length ds) (48)" by simp
    then have "hd ds = 48"
      using assms(1) by (metis hd_replicate length_0_conv)
    with assms(2) show False by simp
  qed
  then have "hd (?s @ replicate (length ds - length ?s) (48)) = hd ?s" by simp
  with pad show "hd ?s = hd ds" by simp
qed

lemma hd_show_nat_digit: "is_digit (hd (show_nat n))"
  using show_nat_digits [of n] show_nat_not_Nil [of n] by (cases "show_nat n") auto

lemma show_positive_head:
  assumes "0 < m"
  shows "\<exists>c cs. show_positive m d = c # cs \<and> is_digit c"
proof -
  let ?ds = "show_nat m"
  let ?s = "strip_zeros ?ds"
  have h: "hd ?ds \<noteq> 48"
    using hd_show_nat_zero [of m] assms by auto
  note sz = strip_zeros_head [OF show_nat_not_Nil h]
  obtain c cs where s: "?s = c # cs" using sz(1) by (cases ?s) auto
  have c: "is_digit c"
    using sz(2) s hd_show_nat_digit [of m] by simp
  have "hd (show_positive m d) = c \<or> hd (show_positive m d) = 48"
    using s by (auto simp: show_positive_def Let_def take_Cons')
  moreover have "show_positive m d \<noteq> []"
    using s by (auto simp: show_positive_def Let_def)
  ultimately show ?thesis
    using c by (cases "show_positive m d") (auto simp: is_digit_def)
qed

lemma show_number_head: "\<exists>c cs. show_number m d = c # cs \<and> (c = 45 \<or> is_digit c)"
proof -
  consider "m = 0" | "m < 0" | "0 < m" by linarith
  then show ?thesis
  proof cases
    case 1
    then show ?thesis by (simp add: show_number_def is_digit_def)
  next
    case 2
    then show ?thesis by (simp add: show_number_def)
  next
    case 3
    then have "0 < nat m" by simp
    from show_positive_head [OF this, of d] 3 show ?thesis
      by (auto simp: show_number_def)
  qed
qed

lemma num_ok_nat: "num_ok m d \<Longrightarrow> num_ok (int (nat \<bar>m\<bar>)) d"
  by (auto simp: num_ok_def abs_if zmod_zminus1_not_zero)

lemma parse_number_show_number:
  assumes "num_ok m d" and "stops r"
  shows "parse_number (show_number m d @ r) = Some ((m, d), r)"
proof -
  consider (zero) "m = 0" | (neg) "m < 0" | (pos) "0 < m" by linarith
  then show ?thesis
  proof cases
    case zero
    with assms(1) have d: "d = 0" by (auto simp: num_ok_def split: if_splits)
    have "parse_unsigned ([48] @ r) = Some (scaled (read_nat [48]) 0, r)"
      by (intro parse_unsigned_plain assms(2)) (simp_all add: is_digit_def)
    then show ?thesis
      using zero d by (simp add: show_number_def parse_number_def scaled_def read_nat_def digit_val_def)
  next
    case neg
    then have "0 < nat (- m)" by simp
    moreover have "num_ok (int (nat (- m))) d"
      using num_ok_nat [OF assms(1)] neg by simp
    ultimately have "parse_unsigned (show_positive (nat (- m)) d @ r) = Some ((nat (- m), d), r)"
      using assms(2) by (intro parse_unsigned_show_positive)
    then show ?thesis
      using neg by (simp add: show_number_def parse_number_def)
  next
    case pos
    then have p: "0 < nat m" by simp
    moreover have "num_ok (int (nat m)) d"
      using num_ok_nat [OF assms(1)] pos by simp
    ultimately have u: "parse_unsigned (show_positive (nat m) d @ r) = Some ((nat m, d), r)"
      using assms(2) by (intro parse_unsigned_show_positive)
    obtain c cs where s: "show_positive (nat m) d = c # cs" "is_digit c"
      using show_positive_head [OF p] by blast
    then have "c \<noteq> 45" by (auto simp: is_digit_def)
    then show ?thesis
      using pos u s by (simp add: show_number_def parse_number_def)
  qed
qed

subsection \<open>Strings\<close>

lemma hex_val_hex_char: "d < 16 \<Longrightarrow> hex_val (hex_char d) = Some d"
  by (auto simp: hex_val_def hex_char_def)

lemma four_hex_digits:
  "4096 * (c div 4096 mod 16) + 256 * (c div 256 mod 16) + 16 * (c div 16 mod 16) + c mod 16
     = (c mod 65536 :: nat)"
proof -
  have a: "c div 256 = c div 16 div 16" by (simp add: div_mult2_eq)
  have b: "c div 4096 = c div 16 div 16 div 16" by (simp add: div_mult2_eq)
  have m: "c mod 65536 = c mod 16 + 16 * (c div 16 mod 16) + 256 * (c div 16 div 16 mod 16)
                           + 4096 * (c div 16 div 16 div 16 mod 16)"
    using mod_mult2_eq [of c 16 4096] mod_mult2_eq [of "c div 16" 16 256]
      mod_mult2_eq [of "c div 16 div 16" 16 16]
    by simp
  show ?thesis unfolding a b m by simp
qed

lemma parse_chars_unicode_escape:
  assumes "parse_chars rest = Some (us, r)" and "c < 65536"
  shows "parse_chars (unicode_escape c @ rest) = Some (c # us, r)"
  using assms four_hex_digits [of c]
  by (simp add: unicode_escape_def hex_val_hex_char)

lemma parse_chars_escape:
  assumes "parse_chars rest = Some (us, r)"
  shows "parse_chars (escape_unit c @ rest) = Some (c # us, r)"
proof -
  consider (quote) "c = 34" | (backslash) "c = 92"
    | (short) "c = 8 \<or> c = 9 \<or> c = 10 \<or> c = 12 \<or> c = 13"
    | (numbered) "c \<noteq> 34" "c \<noteq> 92" "c \<noteq> 8" "c \<noteq> 9" "c \<noteq> 10"
        "c \<noteq> 12" "c \<noteq> 13"
        "c < 32 \<or> is_leading_surrogate c \<or> is_trailing_surrogate c"
    | (plain) "c \<noteq> 34" "c \<noteq> 92"
        "\<not> (c < 32 \<or> is_leading_surrogate c \<or> is_trailing_surrogate c)"
    by (cases "c < 32 \<or> is_leading_surrogate c \<or> is_trailing_surrogate c") auto
  then show ?thesis
  proof cases
    case quote
    then show ?thesis using assms by (simp add: escape_unit_def unescape_def)
  next
    case backslash
    then show ?thesis using assms by (simp add: escape_unit_def unescape_def)
  next
    case short
    then show ?thesis using assms by (auto simp: escape_unit_def unescape_def)
  next
    case numbered
    from numbered(8) have "c < 65536"
      by (auto simp: is_leading_surrogate_def is_trailing_surrogate_def)
    with assms have "parse_chars (unicode_escape c @ rest) = Some (c # us, r)"
      by (rule parse_chars_unicode_escape)
    then show ?thesis
      using numbered by (simp add: escape_unit_def)
  next
    case plain
    then show ?thesis using assms
      by (auto simp: escape_unit_def)
  qed
qed

lemma parse_chars_pair:
  assumes "parse_chars rest = Some (us, r)"
    and "is_leading_surrogate c" and "is_trailing_surrogate d"
  shows "parse_chars (c # d # rest) = Some (c # d # us, r)"
  using assms by (simp add: is_leading_surrogate_def is_trailing_surrogate_def)

lemma parse_chars_quoted:
  "parse_chars (quote_units s @ 34 # r) = Some (s, r)"
proof (induction s rule: quote_units.induct)
  case 1
  show ?case by simp
next
  case (2 c)
  have "parse_chars (escape_unit c @ 34 # r) = Some (c # [], r)"
    by (rule parse_chars_escape) simp
  then show ?case by simp
next
  case (3 c d s)
  show ?case
  proof (cases "is_leading_surrogate c \<and> is_trailing_surrogate d")
    case True
    then have q: "quote_units (c # d # s) = c # d # quote_units s"
      by simp
    have "parse_chars (c # d # quote_units s @ 34 # r) = Some (c # d # s, r)"
      using 3(1) True by (intro parse_chars_pair) simp_all
    then show ?thesis by (simp only: q append_Cons)
  next
    case False
    then have q: "quote_units (c # d # s) = escape_unit c @ quote_units (d # s)"
      by auto
    have "parse_chars (quote_units (d # s) @ 34 # r) = Some (d # s, r)"
      using 3(2) False by simp
    then have "parse_chars (escape_unit c @ quote_units (d # s) @ 34 # r) = Some (c # d # s, r)"
      by (rule parse_chars_escape)
    then show ?thesis by (simp only: q append_assoc)
  qed
qed

lemma quote_string_unfold:
  "quote_string s @ r = 34 # quote_units s @ 34 # r"
  by (simp add: quote_string_def)

subsection \<open>Objects in property order\<close>

lemma property_order_snoc:
  assumes "property_order (ks @ [k])"
  shows "property_order ks" and "k \<notin> set ks"
    and "is_array_index k \<Longrightarrow> \<forall>k' \<in> set ks. is_array_index k' \<and> read_nat k' < read_nat k"
proof -
  let ?P = is_array_index
  let ?N = "\<lambda>k. \<not> is_array_index k"
  have eq: "ks @ [k] = filter ?P (ks @ [k]) @ filter ?N (ks @ [k])"
    and srt: "sorted_wrt (\<lambda>a b. read_nat a < read_nat b) (filter ?P (ks @ [k]))"
    and dst: "distinct (filter ?N (ks @ [k]))"
    using assms by (simp_all add: property_order_def)
  have "property_order ks \<and> k \<notin> set ks
        \<and> (?P k \<longrightarrow> (\<forall>k' \<in> set ks. ?P k' \<and> read_nat k' < read_nat k))"
  proof (cases "?P k")
    case True
    have none: "filter ?N ks = []"
    proof (rule ccontr)
      assume ne: "filter ?N ks \<noteq> []"
      from eq True have "ks @ [k] = (filter ?P ks @ [k]) @ filter ?N ks" by simp
      then have "last (ks @ [k]) = last ((filter ?P ks @ [k]) @ filter ?N ks)" by simp
      then have "k = last (filter ?N ks)" using ne by simp
      then have "k \<in> set (filter ?N ks)" using ne last_in_set by metis
      with True show False by simp
    qed
    then have all: "\<forall>k' \<in> set ks. ?P k'"
      by (simp add: filter_empty_conv)
    then have fp: "filter ?P ks = ks" by simp
    from srt True fp have s: "sorted_wrt (\<lambda>a b. read_nat a < read_nat b) (ks @ [k])" by simp
    then have lt: "\<forall>k' \<in> set ks. read_nat k' < read_nat k"
      by (simp add: sorted_wrt_append)
    then have "k \<notin> set ks" by auto
    moreover have "property_order ks"
      using s none fp by (simp add: property_order_def sorted_wrt_append)
    ultimately show ?thesis using all lt by simp
  next
    case False
    from eq False have "ks = filter ?P ks @ filter ?N ks" by simp
    moreover from srt False have "sorted_wrt (\<lambda>a b. read_nat a < read_nat b) (filter ?P ks)" by simp
    moreover from dst False have d: "distinct (filter ?N ks)" "k \<notin> set (filter ?N ks)" by simp_all
    ultimately have "property_order ks" by (simp add: property_order_def)
    moreover have "k \<notin> set ks" using d(2) False by simp
    ultimately show ?thesis using False by simp
  qed
  then show "property_order ks" and "k \<notin> set ks"
    and "is_array_index k \<Longrightarrow> \<forall>k' \<in> set ks. is_array_index k' \<and> read_nat k' < read_nat k"
    by simp_all
qed

lemma insert_index_at_end:
  "\<forall>k' \<in> set (map fst kvs). is_array_index k' \<and> read_nat k' < read_nat k \<Longrightarrow>
   insert_index k v kvs = kvs @ [(k, v)]"
  by (induction kvs) auto

lemma set_prop_new_last:
  assumes "property_order (map fst kvs @ [k])"
  shows "set_prop kvs k v = kvs @ [(k, v)]"
proof -
  note po = property_order_snoc [OF assms]
  show ?thesis
  proof (cases "is_array_index k")
    case True
    then have "insert_index k v kvs = kvs @ [(k, v)]"
      using po(3) by (intro insert_index_at_end) simp
    then show ?thesis using po(2) True by (simp add: set_prop_def)
  next
    case False
    then show ?thesis using po(2) by (simp add: set_prop_def)
  qed
qed

lemma rebuild_ordered:
  "property_order (map fst kvs) \<Longrightarrow> foldl (\<lambda>acc (k, v). set_prop acc k v) [] kvs = kvs"
proof (induction kvs rule: rev_induct)
  case Nil
  then show ?case by simp
next
  case (snoc kv kvs)
  obtain k v where kv: "kv = (k, v)" by (cases kv)
  from snoc.prems kv have po: "property_order (map fst kvs @ [k])" by simp
  then have "property_order (map fst kvs)" by (rule property_order_snoc(1))
  then have "foldl (\<lambda>acc (k, v). set_prop acc k v) [] kvs = kvs" by (rule snoc.IH)
  then show ?case
    using kv set_prop_new_last [OF po] by simp
qed

lemma build_object_ordered: "property_order (map fst kvs) \<Longrightarrow> build_object kvs = JObj kvs"
  by (simp add: build_object_def rebuild_ordered)

subsection \<open>Values\<close>

lemma stringify_head: "\<exists>c cs. stringify v = c # cs \<and> opens_value c"
proof (cases v)
  case (JNum m d)
  then show ?thesis using show_number_head [of m d] by (auto simp: opens_value_def)
qed (auto simp: opens_value_def quote_string_def)

lemma opens_value_not_ws: "opens_value c \<Longrightarrow> \<not> is_ws c"
  by (auto simp: opens_value_def is_ws_def is_digit_def)

lemma opens_value_not_close: "opens_value c \<Longrightarrow> c \<noteq> 93 \<and> c \<noteq> 125"
  by (auto simp: opens_value_def is_digit_def)

lemma skip_ws_head: "\<not> is_ws c \<Longrightarrow> skip_ws (c # cs) = c # cs"
  by (simp add: skip_ws_def)

lemma skip_ws_stringify: "skip_ws (stringify v @ r) = stringify v @ r"
  using stringify_head [of v] by (auto simp: skip_ws_head opens_value_not_ws)

lemma stringify_elements_head:
  "xs \<noteq> [] \<Longrightarrow> \<exists>c cs. stringify_elements xs = c # cs \<and> opens_value c"
proof (cases xs)
  case Nil
  assume "xs \<noteq> []"
  with Nil show ?thesis by simp
next
  case (Cons x ys)
  obtain c cs where "stringify x = c # cs" "opens_value c"
    using stringify_head by blast
  with Cons show ?thesis by (cases ys) auto
qed

lemma stringify_members_head:
  "kvs \<noteq> [] \<Longrightarrow> \<exists>cs. stringify_members kvs = 34 # cs"
proof (cases kvs)
  case Nil
  assume "kvs \<noteq> []"
  with Nil show ?thesis by simp
next
  case (Cons kv ys)
  obtain k v where "kv = (k, v)" by (cases kv)
  with Cons show ?thesis by (cases ys) (auto simp: quote_string_def)
qed

lemma stops_simps [simp]:
  "stops []" "stops (44 # r)" "stops (93 # r)" "stops (125 # r)"
  by (simp_all add: stops_def)

lemma parse_value_number:
  assumes "num_ok m d" and "stops r"
  shows "parse_value (Suc n) (show_number m d @ r) = Some (JNum m d, r)"
proof -
  obtain c cs where s: "show_number m d = c # cs" and c: "c = 45 \<or> is_digit c"
    using show_number_head by blast
  have "\<not> is_ws c" "c \<noteq> 110" "c \<noteq> 116" "c \<noteq> 102" "c \<noteq> 34"
    "c \<noteq> 91" "c \<noteq> 123"
    using c by (auto simp: is_ws_def is_digit_def)
  moreover have "parse_number (c # cs @ r) = Some ((m, d), r)"
    using parse_number_show_number [OF assms, of] s by simp
  ultimately show ?thesis
    using s c by (simp add: parse_simps skip_ws_head)
qed

lemma parse_value_string:
  "parse_value (Suc n) (quote_string s @ r) = Some (JStr s, r)"
  by (simp add: parse_simps quote_string_def skip_ws_def is_ws_def parse_chars_quoted)

lemma round_trip_all:
  "(json_ok v \<longrightarrow> (\<forall>n r. length (stringify v) < n \<longrightarrow> stops r \<longrightarrow>
        parse_value n (stringify v @ r) = Some (v, r)))"
  "(xs \<noteq> [] \<longrightarrow> all_ok xs \<longrightarrow> (\<forall>n r. length (stringify_elements xs) + 1 < n \<longrightarrow>
        parse_elements n (stringify_elements xs @ 93 # r) = Some (xs, r)))"
  "(kvs \<noteq> [] \<longrightarrow> members_ok kvs \<longrightarrow> (\<forall>n r. length (stringify_members kvs) + 1 < n \<longrightarrow>
        parse_members n (stringify_members kvs @ 125 # r) = Some (kvs, r)))"
proof (induction v and xs and kvs rule: stringify_stringify_elements_stringify_members.induct)
  case 1
  show ?case
  proof (intro impI allI)
    fix n r assume "length (stringify JNull) < n"
    then obtain m where "n = Suc m" by (cases n) auto
    then show "parse_value n (stringify JNull @ r) = Some (JNull, r)"
      by (simp add: parse_simps skip_ws_def is_ws_def expect_def)
  qed
next
  case (2 b)
  show ?case
  proof (intro impI allI)
    fix n r assume "length (stringify (JBool b)) < n"
    then obtain m where "n = Suc m" by (cases n) auto
    then show "parse_value n (stringify (JBool b) @ r) = Some (JBool b, r)"
      by (simp add: parse_simps skip_ws_def is_ws_def expect_def)
  qed
next
  case (3 m d)
  show ?case
  proof (intro impI allI)
    fix n r assume "json_ok (JNum m d)" "length (stringify (JNum m d)) < n" "stops r"
    then obtain k where "n = Suc k" and "num_ok m d" by (cases n) auto
    then show "parse_value n (stringify (JNum m d) @ r) = Some (JNum m d, r)"
      using \<open>stops r\<close> by (simp add: parse_value_number)
  qed
next
  case (4 s)
  show ?case
  proof (intro impI allI)
    fix n r assume "length (stringify (JStr s)) < n"
    then obtain m where "n = Suc m" by (cases n) auto
    then show "parse_value n (stringify (JStr s) @ r) = Some (JStr s, r)"
      by (simp add: parse_value_string)
  qed
next
  case (5 xs)
  show ?case
  proof (intro impI allI)
    fix n r assume ok: "json_ok (JArr xs)" and len: "length (stringify (JArr xs)) < n"
    then obtain m where n: "n = Suc m" by (cases n) auto
    show "parse_value n (stringify (JArr xs) @ r) = Some (JArr xs, r)"
    proof (cases "xs = []")
      case True
      then show ?thesis using n by (simp add: parse_simps skip_ws_def is_ws_def)
    next
      case False
      obtain c cs where h: "stringify_elements xs = c # cs" "opens_value c"
        using stringify_elements_head [OF False] by blast
      have "parse_elements m (stringify_elements xs @ 93 # r) = Some (xs, r)"
        using 5 False ok len n by simp
      then show ?thesis
        using n h opens_value_not_ws [OF h(2)] opens_value_not_close [OF h(2)]
        by (simp add: parse_simps skip_ws_def is_ws_def)
    qed
  qed
next
  case (6 kvs)
  show ?case
  proof (intro impI allI)
    fix n r assume ok: "json_ok (JObj kvs)" and len: "length (stringify (JObj kvs)) < n"
    then obtain m where n: "n = Suc m" by (cases n) auto
    show "parse_value n (stringify (JObj kvs) @ r) = Some (JObj kvs, r)"
    proof (cases "kvs = []")
      case True
      then show ?thesis using n by (simp add: parse_simps skip_ws_def is_ws_def)
    next
      case False
      obtain cs where h: "stringify_members kvs = 34 # cs"
        using stringify_members_head [OF False] by blast
      have "parse_members m (stringify_members kvs @ 125 # r) = Some (kvs, r)"
        using 6 False ok len n by simp
      then show ?thesis
        using n h ok by (simp add: parse_simps skip_ws_def is_ws_def build_object_ordered)
    qed
  qed
next
  case 7
  show ?case by simp
next
  case (8 x)
  show ?case
  proof (intro impI allI)
    fix n r assume ok: "all_ok [x]" and len: "length (stringify_elements [x]) + 1 < n"
    then obtain m where n: "n = Suc m" by (cases n) auto
    have "parse_value m (stringify x @ 93 # r) = Some (x, r')" if "r' = 93 # r" for r'
      using 8 ok len n that by simp
    then show "parse_elements n (stringify_elements [x] @ 93 # r) = Some ([x], r)"
      using n by (simp add: parse_simps skip_ws_def is_ws_def)
  qed
next
  case (9 x y ys)
  show ?case
  proof (intro impI allI)
    fix n r assume ok: "all_ok (x # y # ys)"
      and len: "length (stringify_elements (x # y # ys)) + 1 < n"
    then obtain m where n: "n = Suc m" by (cases n) auto
    let ?rest = "stringify_elements (y # ys) @ 93 # r"
    have v: "parse_value m (stringify x @ 44 # ?rest) = Some (x, 44 # ?rest)"
      using 9(1) ok len n by simp
    have es: "parse_elements m ?rest = Some (y # ys, r)"
      using 9(2) ok len n by simp
    show "parse_elements n (stringify_elements (x # y # ys) @ 93 # r) = Some (x # y # ys, r)"
      using n v es by (simp add: parse_simps skip_ws_def is_ws_def)
  qed
next
  case 10
  show ?case by simp
next
  case (11 k v)
  show ?case
  proof (intro impI allI)
    fix n r assume ok: "members_ok [(k, v)]" and len: "length (stringify_members [(k, v)]) + 1 < n"
    then obtain m where n: "n = Suc m" by (cases n) auto
    have v: "parse_value m (stringify v @ 125 # r) = Some (v, 125 # r)"
      using 11 ok len n by simp
    show "parse_members n (stringify_members [(k, v)] @ 125 # r) = Some ([(k, v)], r)"
      using n v by (simp add: parse_simps quote_string_def skip_ws_def is_ws_def parse_chars_quoted)
  qed
next
  case (12 k v kv kvs)
  show ?case
  proof (intro impI allI)
    fix n r assume ok: "members_ok ((k, v) # kv # kvs)"
      and len: "length (stringify_members ((k, v) # kv # kvs)) + 1 < n"
    then obtain m where n: "n = Suc m" by (cases n) auto
    let ?rest = "stringify_members (kv # kvs) @ 125 # r"
    have v: "parse_value m (stringify v @ 44 # ?rest) = Some (v, 44 # ?rest)"
      using 12(1) ok len n by simp
    have ms: "parse_members m ?rest = Some (kv # kvs, r)"
      using 12(2) ok len n by simp
    show "parse_members n (stringify_members ((k, v) # kv # kvs) @ 125 # r)
            = Some ((k, v) # kv # kvs, r)"
      using n v ms by (simp add: parse_simps quote_string_def skip_ws_def is_ws_def parse_chars_quoted)
  qed
qed

text \<open>\<^verbatim>\<open>JSON.parse(JSON.stringify(v))\<close> is \<open>v\<close>.\<close>

lemma JSON_parse_stringify: "json_ok v \<Longrightarrow> JSON_parse (stringify v) = Some v"
  using round_trip_all(1) [of v, rule_format, of "Suc (length (stringify v))" "[]"]
  by (simp add: JSON_parse_def skip_ws_def)

subsection \<open>A body that is the text of a value\<close>

text \<open>The body parser of the samples reads the text of an object or an array as that
  object or array.\<close>

lemma express_json_reads_stringify:
  assumes "json_ok v" and "(\<exists>kvs. v = JObj kvs) \<or> (\<exists>xs. v = JArr xs)"
  shows "express_json unread (Some (stringify v)) = Inr (Some v)"
proof -
  obtain cs where s: "stringify v = 123 # cs \<or> stringify v = 91 # cs"
    using assms(2) by auto
  then have "skip_ws (stringify v) = stringify v"
    by (auto simp: skip_ws_def is_ws_def)
  then show ?thesis
    using s JSON_parse_stringify [OF assms(1)] by (auto simp: express_json_def)
qed

lemma json_request_read:
  assumes "json_ok v" and "(\<exists>kvs. v = JObj kvs) \<or> (\<exists>xs. v = JArr xs)"
  shows "example_parser (payload (json_request h v)) = Inr (Some v)"
  using express_json_reads_stringify [OF assms]
  by (simp add: example_parser_def json_request_def)

lemma sample_bodies_ok:
  "json_ok empty_cart_body" "json_ok empty_cart_body_part000" "json_ok honest_body"
  "json_ok spoofed_body" "json_ok cart_body" "json_ok cart_items"
  by (simp_all add: empty_cart_body_def empty_cart_body_part000_def honest_body_def
      spoofed_body_def cart_body_def cart_items_def property_order_def is_array_index_def
      is_digit_def num_ok_def)

lemma sample_requests_read:
  "example_parser (payload (json_request h empty_cart_body)) = Inr (Some empty_cart_body)"
  "example_parser (payload (json_request h empty_cart_body_part000))
     = Inr (Some empty_cart_body_part000)"
  "example_parser (payload honest_request) = Inr (Some honest_body)"
  "example_parser (payload spoofed_request) = Inr (Some spoofed_body)"
  "example_parser (payload cart_request) = Inr (Some cart_body)"
  "example_parser (payload history_request) = Inr None"
  "example_parser (payload anonymous_request) = Inr None"
  "example_parser (payload malformed_request) = Inl 400"
proof -
  show "example_parser (payload (json_request h empty_cart_body)) = Inr (Some empty_cart_body)"
    by (rule json_request_read) (simp_all add: sample_bodies_ok, simp add: empty_cart_body_def)
  show "example_parser (payload (json_request h empty_cart_body_part000))
          = Inr (Some empty_cart_body_part000)"
    by (rule json_request_read)
      (simp_all add: sample_bodies_ok, simp add: empty_cart_body_part000_def)
  show "example_parser (payload honest_request) = Inr (Some honest_body)"
    unfolding honest_request_def
    by (rule json_request_read) (simp_all add: sample_bodies_ok, simp add: honest_body_def)
  show "example_parser (payload spoofed_request) = Inr (Some spoofed_body)"
    unfolding spoofed_request_def
    by (rule json_request_read) (simp_all add: sample_bodies_ok, simp add: spoofed_body_def)
  show "example_parser (payload cart_request) = Inr (Some cart_body)"
    unfolding cart_request_def
    by (rule json_request_read) (simp_all add: sample_bodies_ok, simp add: cart_body_def)
  show "example_parser (payload history_request) = Inr None"
    by (simp add: example_parser_def express_json_def history_request_def)
  show "example_parser (payload anonymous_request) = Inr None"
    by (simp add: example_parser_def express_json_def anonymous_request_def)
  have "JSON_parse [123] = None"
    by (simp add: JSON_parse_def parse_simps skip_ws_def is_ws_def)
  then show "example_parser (payload malformed_request) = Inl 400"
    by (simp add: example_parser_def express_json_def malformed_request_def skip_ws_def is_ws_def)
qed

text \<open>The text of the submission with an empty cart.\<close>

lemma empty_cart_payload:
  \<open>payload (json_request h empty_cart_body) = Some (lit ''{"items":[],"total":10,"details":{}}'')\<close>
  by (simp add: json_request_def empty_cart_body_def quote_string_def escape_unit_def
      is_leading_surrogate_def is_trailing_surrogate_def show_number_def show_positive_def
      strip_zeros_def Let_def digit_char_def show_nat.simps)

section \<open>The gateway lets nothing through without a token\<close>

lemma js_split_no_sep: "sep \<notin> set s \<Longrightarrow> js_split sep s = [s]"
  by (induction s) auto

lemma js_split_at_sep: "sep \<notin> set a \<Longrightarrow> js_split sep (a @ sep # r) = a # js_split sep r"
  by (induction a) auto

lemma js_split_not_Nil: "js_split sep s \<noteq> []"
  by (induction s) (auto split: list.splits)

lemma hd_js_split: "hd (js_split sep r) = takeWhile (\<lambda>c. c \<noteq> sep) r"
  by (induction r) (auto simp: js_split_not_Nil split: list.splits)

lemma takeWhile_segment:
  "sep \<notin> set t \<Longrightarrow> r = [] \<or> hd r = sep \<Longrightarrow> takeWhile (\<lambda>c. c \<noteq> sep) (t @ r) = t"
  by (induction t) (auto, cases r, auto)

lemma bearer_token_no_space:
  "32 \<notin> set h \<Longrightarrow> bearer_token (Some h) = (if h = [] then Some [] else None)"
  by (simp add: bearer_token_def js_split_no_sep js_index_def)

lemma bearer_token_second:
  assumes "32 \<notin> set a"
  shows "bearer_token (Some (a @ 32 # r)) = Some (takeWhile (\<lambda>c. c \<noteq> 32) r)"
proof -
  obtain seg segs where s: "js_split 32 r = seg # segs"
    using js_split_not_Nil by (cases "js_split 32 r") auto
  have "seg = takeWhile (\<lambda>c. c \<noteq> 32) r"
    using hd_js_split [of 32 r] s by simp
  then show ?thesis
    using assms s by (simp add: bearer_token_def js_split_at_sep js_index_def)
qed

lemma no_second_segment:
  assumes "32 \<notin> set h \<or> (h = a @ 32 # r \<and> 32 \<notin> set a \<and> (r = [] \<or> hd r = 32))"
  shows "bearer_token (Some h) = None \<or> bearer_token (Some h) = Some []"
proof (cases "32 \<in> set h")
  case False
  then show ?thesis by (simp add: bearer_token_no_space)
next
  case True
  with assms have h: "h = a @ 32 # r" "32 \<notin> set a" "r = [] \<or> hd r = 32"
    by auto
  have "takeWhile (\<lambda>c. c \<noteq> 32) r = []"
    using h(3) by (cases r) auto
  then show ?thesis
    using h(1,2) by (simp add: bearer_token_second)
qed

lemma requireAuth_with_denied:
  "bearer_token (authorization req) = None \<or> bearer_token (authorization req) = Some [] \<Longrightarrow>
   requireAuth_with denied invalid sb req w = (Inl (send_error 401 denied), w)"
  by (auto simp: requireAuth_with_def)

lemma requireAuth_with_exchange:
  "bearer_token (authorization req) = Some token \<Longrightarrow> token \<noteq> [] \<Longrightarrow>
   requireAuth_with denied invalid sb req w =
     ((case (gu_error (getUser_reply sb token), gu_user (getUser_reply sb token)) of
         (None, Some u) \<Rightarrow> Inr (user_ident u)
       | _ \<Rightarrow> Inl (send_error 401 invalid)),
      logged (GetUser token) w)"
  by (auto simp: requireAuth_with_def auth_getUser_def split: option.splits)

lemma guarded_denied:
  "auth sb req w = (Inl sent, w') \<Longrightarrow> guarded auth handler sb req w = (sent, w')"
  by (simp add: guarded_def)

lemma app_use_refused:
  "parser (payload inc) = Inl st \<Longrightarrow> app_use parser r sb inc w = (Refused st, w)"
  by (simp add: app_use_def)

lemma app_use_passed:
  "parser (payload inc) = Inr b \<Longrightarrow>
   app_use parser r sb inc w = r sb \<lparr>authorization = header_authorization inc, body = b\<rparr> w"
  by (simp add: app_use_def)

lemmas route_defs = route_post_pedidos_def route_post_finalizar_def route_post_pedidos_part000_def
  route_get_pedidos_part000_def

lemma routes_refused:
  assumes "parser (payload inc) = Inl st"
  shows "route_post_pedidos parser sb inc w = (Refused st, w)"
    and "route_post_finalizar parser sb inc w = (Refused st, w)"
    and "route_post_pedidos_part000 parser sb inc w = (Refused st, w)"
    and "route_get_pedidos_part000 parser sb inc w = (Refused st, w)"
  using assms by (simp_all add: route_defs app_use_def)

lemma routes_denied:
  assumes "parser (payload inc) = Inr b"
    and "bearer_token (header_authorization inc) = None
         \<or> bearer_token (header_authorization inc) = Some []"
  shows "route_post_pedidos parser sb inc w = (send_error 401 (lit ''Acesso negado.''), w)"
    and "route_post_finalizar parser sb inc w = (send_error 401 (lit ''Acesso negado.''), w)"
    and "route_post_pedidos_part000 parser sb inc w =
           (send_error 401 (lit (''Acesso negado. Token n'' @ [CHR 0xE3] @ ''o fornecido.'')), w)"
    and "route_get_pedidos_part000 parser sb inc w =
           (send_error 401 (lit (''Acesso negado. Token n'' @ [CHR 0xE3] @ ''o fornecido.'')), w)"
proof -
  let ?req = "\<lparr>authorization = header_authorization inc, body = b\<rparr>"
  have d: "requireAuth_with denied invalid sb ?req w = (Inl (send_error 401 denied), w)"
    for denied invalid
    using assms(2) by (intro requireAuth_with_denied) simp
  show "route_post_pedidos parser sb inc w = (send_error 401 (lit ''Acesso negado.''), w)"
    and "route_post_finalizar parser sb inc w = (send_error 401 (lit ''Acesso negado.''), w)"
    and "route_post_pedidos_part000 parser sb inc w =
           (send_error 401 (lit (''Acesso negado. Token n'' @ [CHR 0xE3] @ ''o fornecido.'')), w)"
    and "route_get_pedidos_part000 parser sb inc w =
           (send_error 401 (lit (''Acesso negado. Token n'' @ [CHR 0xE3] @ ''o fornecido.'')), w)"
    using d [of "lit ''Acesso negado.''"]
      d [of "lit (''Acesso negado. Token n'' @ [CHR 0xE3] @ ''o fornecido.'')"]
    by (simp_all add: route_defs app_use_def assms(1) requireAuth_def requireAuth_part000_def
        guarded_def)
qed

text \<open>
  C4, as the spec states it: every request to an authenticated route that carries no
  Authorization header is answered 401. The body parser comes before the gateway: a
  request with no Authorization header whose body is not JSON (here the text of an
  opening brace alone) is refused by the parser with the status 400, and the gateway
  never sees it.
\<close>

theorem malformed_body_counterexample:
  "header_authorization malformed_request = None
   \<and> route_post_pedidos example_parser example_supabase malformed_request example_world
       = (Refused 400, example_world)
   \<and> route_get_pedidos_part000 example_parser example_supabase malformed_request example_world
       = (Refused 400, example_world)"
  using sample_requests_read(8)
  by (simp add: routes_refused [where parser = example_parser and inc = malformed_request])
    (simp add: malformed_request_def)

text \<open>
  C4, amended. For a request to an authenticated route (order submission and finalization
  of index.js, order submission and order history of the older entry point) that carries
  no Authorization header: when the body parser passes the request on, whatever it leaves
  in the body, the answer is 401; when the body parser refuses the request, the answer is
  that refusal. In both cases the world is left as it was: no call reached the auth
  service or the store. The gateway itself answers 401, with no call, to every request
  with no Authorization header that reaches it.
\<close>

theorem no_header_unauthenticated:
  assumes "header_authorization inc = None"
  shows "(case parser (payload inc) of
            Inl st \<Rightarrow>
              route_post_pedidos parser sb inc w = (Refused st, w)
              \<and> route_post_finalizar parser sb inc w = (Refused st, w)
              \<and> route_post_pedidos_part000 parser sb inc w = (Refused st, w)
              \<and> route_get_pedidos_part000 parser sb inc w = (Refused st, w)
          | Inr b \<Rightarrow>
              route_post_pedidos parser sb inc w = (send_error 401 (lit ''Acesso negado.''), w)
              \<and> route_post_finalizar parser sb inc w = (send_error 401 (lit ''Acesso negado.''), w)
              \<and> route_post_pedidos_part000 parser sb inc w =
                  (send_error 401 (lit (''Acesso negado. Token n'' @ [CHR 0xE3] @ ''o fornecido.'')),
                   w)
              \<and> route_get_pedidos_part000 parser sb inc w =
                  (send_error 401 (lit (''Acesso negado. Token n'' @ [CHR 0xE3] @ ''o fornecido.'')),
                   w))
       \<and> requireAuth sb \<lparr>authorization = header_authorization inc, body = b'\<rparr> w
           = (Inl (send_error 401 (lit ''Acesso negado.'')), w)
       \<and> requireAuth_part000 sb \<lparr>authorization = header_authorization inc, body = b'\<rparr> w
           = (Inl (send_error 401 (lit (''Acesso negado. Token n'' @ [CHR 0xE3] @ ''o fornecido.''))),
              w)"
proof -
  have none: "bearer_token (header_authorization inc) = None
              \<or> bearer_token (header_authorization inc) = Some []"
    using assms by (simp add: bearer_token_def)
  have gate: "requireAuth_with denied invalid sb
                 \<lparr>authorization = header_authorization inc, body = b'\<rparr> w
               = (Inl (send_error 401 denied), w)" for denied invalid
    using none by (intro requireAuth_with_denied) simp
  show ?thesis
  proof (cases "parser (payload inc)")
    case (Inl st)
    then show ?thesis
      using gate routes_refused [where parser = parser and inc = inc and st = st]
      by (simp add: requireAuth_def requireAuth_part000_def)
  next
    case (Inr b)
    then show ?thesis
      using gate routes_denied [where parser = parser and inc = inc and b = b, OF _ none]
      by (simp add: requireAuth_def requireAuth_part000_def)
  qed
qed

theorem no_header_unauthenticated_witness:
  "route_post_pedidos example_parser example_supabase anonymous_request example_world
     = (send_error 401 (lit ''Acesso negado.''), example_world)
   \<and> calls (snd (route_get_pedidos_part000 example_parser example_supabase anonymous_request
                    example_world)) = []
   \<and> route_post_finalizar example_parser example_supabase malformed_request example_world
     = (Refused 400, example_world)"
  using no_header_unauthenticated
          [of anonymous_request example_parser example_supabase example_world]
        no_header_unauthenticated
          [of malformed_request example_parser example_supabase example_world]
  by (simp add: sample_requests_read)
    (simp add: anonymous_request_def malformed_request_def example_world_def)

text \<open>
  C10. A request whose Authorization header has no non-empty second space-separated
  segment (no space at all, as the raw token or the word Bearer alone; or nothing, or
  another space, right after the first space) is treated exactly as one with no token.
  The gateway answers it 401 and leaves the world as it was, with no call to the auth
  service or the store; and every authenticated route does with it what it does with the
  same request without the header, which is to answer 401 whenever the body parser passes
  the request on.
\<close>

theorem no_second_segment_unauthenticated:
  assumes "code (CHR '' '') \<notin> set h
         \<or> (h = a @ code (CHR '' '') # r \<and> code (CHR '' '') \<notin> set a
            \<and> (r = [] \<or> hd r = code (CHR '' '')))"
  shows "requireAuth sb \<lparr>authorization = Some h, body = b\<rparr> w
           = (Inl (send_error 401 (lit ''Acesso negado.'')), w)
       \<and> requireAuth_part000 sb \<lparr>authorization = Some h, body = b\<rparr> w
           = (Inl (send_error 401 (lit (''Acesso negado. Token n'' @ [CHR 0xE3] @ ''o fornecido.''))),
              w)
       \<and> route_post_pedidos parser sb \<lparr>header_authorization = Some h, payload = p\<rparr> w
           = route_post_pedidos parser sb \<lparr>header_authorization = None, payload = p\<rparr> w
       \<and> route_post_finalizar parser sb \<lparr>header_authorization = Some h, payload = p\<rparr> w
           = route_post_finalizar parser sb \<lparr>header_authorization = None, payload = p\<rparr> w
       \<and> route_post_pedidos_part000 parser sb \<lparr>header_authorization = Some h, payload = p\<rparr> w
           = route_post_pedidos_part000 parser sb \<lparr>header_authorization = None, payload = p\<rparr> w
       \<and> route_get_pedidos_part000 parser sb \<lparr>header_authorization = Some h, payload = p\<rparr> w
           = route_get_pedidos_part000 parser sb \<lparr>header_authorization = None, payload = p\<rparr> w
       \<and> (parser p = Inr b \<longrightarrow>
            route_post_pedidos parser sb \<lparr>header_authorization = Some h, payload = p\<rparr> w
              = (send_error 401 (lit ''Acesso negado.''), w)
            \<and> route_post_finalizar parser sb \<lparr>header_authorization = Some h, payload = p\<rparr> w
              = (send_error 401 (lit ''Acesso negado.''), w)
            \<and> route_post_pedidos_part000 parser sb \<lparr>header_authorization = Some h, payload = p\<rparr> w
              = (send_error 401 (lit (''Acesso negado. Token n'' @ [CHR 0xE3] @ ''o fornecido.'')),
                 w)
            \<and> route_get_pedidos_part000 parser sb \<lparr>header_authorization = Some h, payload = p\<rparr> w
              = (send_error 401 (lit (''Acesso negado. Token n'' @ [CHR 0xE3] @ ''o fornecido.'')),
                 w))"
proof -
  let ?with = "\<lparr>header_authorization = Some h, payload = p\<rparr>"
  let ?without = "\<lparr>header_authorization = None, payload = p\<rparr>"
  have none: "bearer_token (Some h) = None \<or> bearer_token (Some h) = Some []"
    using assms by (intro no_second_segment [of h a r]) simp
  have gate: "requireAuth_with denied invalid sb \<lparr>authorization = Some h, body = b\<rparr> w
               = (Inl (send_error 401 denied), w)" for denied invalid
    using none by (intro requireAuth_with_denied) simp
  have w: "bearer_token (header_authorization ?with) = None
           \<or> bearer_token (header_authorization ?with) = Some []"
    using none by simp
  have wo: "bearer_token (header_authorization ?without) = None
            \<or> bearer_token (header_authorization ?without) = Some []"
    by (simp add: bearer_token_def)
  show ?thesis
  proof (cases "parser p")
    case (Inl st)
    then have "parser (payload ?with) = Inl st" "parser (payload ?without) = Inl st"
      by simp_all
    then show ?thesis
      using gate Inl routes_refused [where parser = parser and inc = ?with and st = st]
        routes_refused [where parser = parser and inc = ?without and st = st]
      by (simp add: requireAuth_def requireAuth_part000_def)
  next
    case (Inr b0)
    then have p: "parser (payload ?with) = Inr b0" "parser (payload ?without) = Inr b0"
      by simp_all
    show ?thesis
      using gate p routes_denied [where parser = parser and inc = ?with and b = b0, OF _ w]
        routes_denied [where parser = parser and inc = ?without and b = b0, OF _ wo]
      by (simp add: requireAuth_def requireAuth_part000_def)
  qed
qed

theorem no_second_segment_unauthenticated_witness:
  "requireAuth example_supabase \<lparr>authorization = Some (lit ''tok''), body = None\<rparr> example_world
     = (Inl (send_error 401 (lit ''Acesso negado.'')), example_world)
   \<and> route_post_pedidos example_parser example_supabase
       \<lparr>header_authorization = Some (lit ''tok''), payload = None\<rparr> example_world
     = (send_error 401 (lit ''Acesso negado.''), example_world)
   \<and> route_post_finalizar example_parser example_supabase
       \<lparr>header_authorization = Some (lit ''Bearer ''), payload = None\<rparr> example_world
     = (send_error 401 (lit ''Acesso negado.''), example_world)"
proof -
  have bare: "code (CHR '' '') \<notin> set (lit ''tok'')
              \<or> (lit ''tok'' = [] @ code (CHR '' '') # [] \<and> code (CHR '' '') \<notin> set []
                 \<and> ([] = [] \<or> hd [] = code (CHR '' '')))"
    by simp
  have word: "code (CHR '' '') \<notin> set (lit ''Bearer '')
              \<or> (lit ''Bearer '' = lit ''Bearer'' @ code (CHR '' '') # []
                 \<and> code (CHR '' '') \<notin> set (lit ''Bearer'')
                 \<and> ([] = [] \<or> hd [] = code (CHR '' '')))"
    by simp
  have passed: "example_parser None = Inr None"
    by (simp add: example_parser_def express_json_def)
  show ?thesis
    using no_second_segment_unauthenticated
            [OF bare, where sb = example_supabase and b = None and w = example_world
               and parser = example_parser and p = None]
          no_second_segment_unauthenticated
            [OF word, where sb = example_supabase and b = None and w = example_world
               and parser = example_parser and p = None]
          passed
    by blast
qed

section \<open>The gateway does not look at the scheme word\<close>

text \<open>
  C7, as the spec states it: a header that is not of the form Bearer, space, token has no
  token taken from it and exchanged. The header \<^verbatim>\<open>Basic tok\<close> is not of that form, and
  its second segment is exchanged all the same.
\<close>

theorem other_scheme_counterexample:
  "\<not> spec_bearer_form (lit ''Basic tok'')
   \<and> calls (snd (requireAuth example_supabase
                    \<lparr>authorization = Some (lit ''Basic tok''), body = None\<rparr> example_world))
       = [GetUser (lit ''tok'')]"
  by (simp add: spec_bearer_form_def requireAuth_def requireAuth_with_def bearer_token_def
      js_index_def auth_getUser_def logged_def example_supabase_def example_world_def)

text \<open>
  C7, amended. The gateway takes the second space-separated segment of the Authorization
  header as the token, whatever the first segment is: when that segment is not empty, the
  one call the gateway makes is the exchange of exactly that segment with the auth
  service.
\<close>

theorem second_segment_is_exchanged:
  assumes "authorization req = Some (scheme @ code (CHR '' '') # token @ rest)"
    and "code (CHR '' '') \<notin> set scheme" and "code (CHR '' '') \<notin> set token" and "token \<noteq> []"
    and "rest = [] \<or> hd rest = code (CHR '' '')"
  shows "snd (requireAuth sb req w) = logged (GetUser token) w
       \<and> snd (requireAuth_part000 sb req w) = logged (GetUser token) w"
proof -
  have "takeWhile (\<lambda>c. c \<noteq> 32) (token @ rest) = token"
    using assms(3,5) by (intro takeWhile_segment) simp_all
  then have "bearer_token (authorization req) = Some token"
    using assms(1,2) by (simp add: bearer_token_second)
  then show ?thesis
    using assms(4) by (simp add: requireAuth_def requireAuth_part000_def requireAuth_with_exchange)
qed

theorem second_segment_is_exchanged_witness:
  "calls (snd (requireAuth example_supabase
                 \<lparr>authorization = Some (lit ''Basic tok''), body = None\<rparr> example_world))
     = [GetUser (lit ''tok'')]
   \<and> calls (snd (requireAuth_part000 example_supabase
                    \<lparr>authorization = Some (lit ''Basic tok''), body = None\<rparr> example_world))
     = [GetUser (lit ''tok'')]"
  using second_segment_is_exchanged
          [of "\<lparr>authorization = Some (lit ''Basic tok''), body = None\<rparr>" "lit ''Basic''"
              "lit ''tok''" "[]" example_supabase example_world]
  by (simp add: logged_def example_world_def)

section \<open>An empty cart passes the validation\<close>

lemma requireAuth_with_resolved:
  assumes "bearer_token (authorization req) = Some token" and "token \<noteq> []"
    and "gu_error (getUser_reply sb token) = None" and "gu_user (getUser_reply sb token) = Some u"
  shows "requireAuth_with denied invalid sb req w = (Inr (user_ident u), logged (GetUser token) w)"
  using assms by (simp add: requireAuth_with_exchange)

lemma guarded_resolved:
  assumes "bearer_token (authorization req) = Some token" and "token \<noteq> []"
    and "gu_error (getUser_reply sb token) = None" and "gu_user (getUser_reply sb token) = Some u"
  shows "guarded (requireAuth_with denied invalid) handler sb req w =
           handler sb (user_ident u) req (logged (GetUser token) w)"
  by (simp add: guarded_def requireAuth_with_resolved [OF assms])

text \<open>When the body parser passes the request on and the gateway resolves the token, the
  route is its handler, run with the identity of the user after the exchange.\<close>

lemma routes_resolved:
  assumes "parser (payload inc) = Inr b"
    and "bearer_token (header_authorization inc) = Some token" and "token \<noteq> []"
    and "gu_error (getUser_reply sb token) = None" and "gu_user (getUser_reply sb token) = Some u"
  shows "route_post_pedidos parser sb inc w =
           post_pedidos sb (user_ident u) \<lparr>authorization = header_authorization inc, body = b\<rparr>
             (logged (GetUser token) w)"
    and "route_post_finalizar parser sb inc w =
           post_finalizar sb (user_ident u) \<lparr>authorization = header_authorization inc, body = b\<rparr>
             (logged (GetUser token) w)"
    and "route_post_pedidos_part000 parser sb inc w =
           post_pedidos_part000 sb (user_ident u)
             \<lparr>authorization = header_authorization inc, body = b\<rparr> (logged (GetUser token) w)"
    and "route_get_pedidos_part000 parser sb inc w =
           get_pedidos_part000 sb (user_ident u)
             \<lparr>authorization = header_authorization inc, body = b\<rparr> (logged (GetUser token) w)"
proof -
  let ?req = "\<lparr>authorization = header_authorization inc, body = b\<rparr>"
  have tok: "bearer_token (authorization ?req) = Some token"
    using assms(2) by simp
  note g = guarded_resolved [OF tok assms(3-5)]
  show "route_post_pedidos parser sb inc w =
           post_pedidos sb (user_ident u) ?req (logged (GetUser token) w)"
    and "route_post_finalizar parser sb inc w =
           post_finalizar sb (user_ident u) ?req (logged (GetUser token) w)"
    and "route_post_pedidos_part000 parser sb inc w =
           post_pedidos_part000 sb (user_ident u) ?req (logged (GetUser token) w)"
    and "route_get_pedidos_part000 parser sb inc w =
           get_pedidos_part000 sb (user_ident u) ?req (logged (GetUser token) w)"
    using assms(1)
    by (simp_all add: route_defs app_use_def requireAuth_def requireAuth_part000_def g)
qed

lemma tok_not_empty: "lit ''tok'' \<noteq> []"
  by simp

lemma example_token:
  "bearer_token (Some (lit ''Bearer tok'')) = Some (lit ''tok'')"
  "gu_error (getUser_reply example_supabase (lit ''tok'')) = None"
  "gu_user (getUser_reply example_supabase (lit ''tok'')) = Some \<lparr>user_ident = lit ''u1''\<rparr>"
  by (simp_all add: bearer_token_def js_index_def example_supabase_def)

text \<open>
  C1. The spec asks that a submission whose items are the empty sequence be refused with
  400 and nothing stored. An empty array is truthy, so \<^verbatim>\<open>!items\<close> lets it pass: with a
  valid token, a total and (in index.js) details, both entry points store the order with
  the items text \<^verbatim>\<open>[]\<close> and answer 201.
\<close>

theorem empty_cart_is_stored:
  "route_post_pedidos example_parser example_supabase
     (json_request (Some (lit ''Bearer tok'')) empty_cart_body) example_world
   = (Sent \<lparr>res_status = 201,
            res_json = JObj [(lit ''message'', JStr (lit ''Pedido criado!'')),
                             (lit ''pedido'', pedido_json
                                \<lparr>p_id = 1, p_created_at = 100, p_user_id = lit ''u1'',
                                 p_items_json = Some (lit ''[]''), p_total = Some (JNum 10 0),
                                 p_status = lit ''Pendente'', p_details_json = Some (lit ''{}'')\<rparr>)]\<rparr>,
      example_world
        \<lparr>pedidos := [\<lparr>p_id = 1, p_created_at = 100, p_user_id = lit ''u1'',
                       p_items_json = Some (lit ''[]''), p_total = Some (JNum 10 0),
                       p_status = lit ''Pendente'', p_details_json = Some (lit ''{}'')\<rparr>],
         next_id := 2, calls := [GetUser (lit ''tok''), Insert (lit ''pedidos'')]\<rparr>)
   \<and> route_post_pedidos_part000 example_parser example_supabase
     (json_request (Some (lit ''Bearer tok'')) empty_cart_body_part000) example_world
   = (Sent \<lparr>res_status = 201,
            res_json = JObj [(lit ''message'', JStr (lit ''Pedido finalizado com sucesso!'')),
                             (lit ''pedido'', pedido_json
                                \<lparr>p_id = 1, p_created_at = 100, p_user_id = lit ''u1'',
                                 p_items_json = Some (lit ''[]''), p_total = Some (JNum 10 0),
                                 p_status = lit ''Pendente'', p_details_json = None\<rparr>)]\<rparr>,
      example_world
        \<lparr>pedidos := [\<lparr>p_id = 1, p_created_at = 100, p_user_id = lit ''u1'',
                       p_items_json = Some (lit ''[]''), p_total = Some (JNum 10 0),
                       p_status = lit ''Pendente'', p_details_json = None\<rparr>],
         next_id := 2, calls := [GetUser (lit ''tok''), Insert (lit ''pedidos'')]\<rparr>)"
proof -
  let ?h = "Some (lit ''Bearer tok'')"
  have tok: "bearer_token (header_authorization (json_request ?h v)) = Some (lit ''tok'')" for v
    using example_token(1) by (simp add: json_request_def)
  note a = routes_resolved(1)
             [where parser = example_parser and inc = "json_request ?h empty_cart_body",
              OF sample_requests_read(1) tok tok_not_empty example_token(2,3)]
  note b = routes_resolved(3)
             [where parser = example_parser and inc = "json_request ?h empty_cart_body_part000",
              OF sample_requests_read(2) tok tok_not_empty example_token(2,3)]
  show ?thesis
    unfolding a b
    by (simp add: post_pedidos_def post_pedidos_part000_def destructure_def empty_cart_body_def
        empty_cart_body_part000_def insert_pedidos_def JSON_stringify_def logged_def
        example_supabase_def example_world_def json_request_def Let_def)
qed

section \<open>The owner of a stored order\<close>

lemma destructure_object:
  "b \<noteq> JNull \<Longrightarrow> destructure prop (Some b) = Inr b"
  by (cases b) (simp_all add: destructure_def)

lemma truthy_prop_not_null: "truthy (get_prop b k) \<Longrightarrow> b \<noteq> JNull"
  by (cases b) simp_all

lemma post_pedidos_stores:
  assumes "body req = Some b"
    and "truthy (get_prop b (lit ''items''))" and "truthy (get_prop b (lit ''total''))"
    and "truthy (get_prop b (lit ''details''))" and "db_error sb (Insert (lit ''pedidos'')) = None"
  shows "pedidos (snd (post_pedidos sb uid req w)) =
           pedidos w @ [\<lparr>p_id = next_id w, p_created_at = now w, p_user_id = uid,
                          p_items_json = JSON_stringify (get_prop b (lit ''items'')),
                          p_total = get_prop b (lit ''total''), p_status = lit ''Pendente'',
                          p_details_json = JSON_stringify (get_prop b (lit ''details''))\<rparr>]"
  using assms destructure_object [OF truthy_prop_not_null [OF assms(2)]]
  by (simp add: post_pedidos_def insert_pedidos_def logged_def Let_def)

lemma post_pedidos_part000_stores:
  assumes "body req = Some b"
    and "truthy (get_prop b (lit ''items''))" and "truthy (get_prop b (lit ''total''))"
    and "db_error sb (Insert (lit ''pedidos'')) = None"
  shows "pedidos (snd (post_pedidos_part000 sb uid req w)) =
           pedidos w @ [\<lparr>p_id = next_id w, p_created_at = now w, p_user_id = uid,
                          p_items_json = JSON_stringify (get_prop b (lit ''items'')),
                          p_total = get_prop b (lit ''total''), p_status = lit ''Pendente'',
                          p_details_json = None\<rparr>]"
  using assms destructure_object [OF truthy_prop_not_null [OF assms(2)]]
  by (simp add: post_pedidos_part000_def insert_pedidos_def logged_def Let_def)

lemma post_finalizar_stores:
  assumes "body req = Some b"
    and "truthy (get_prop b (lit ''nome''))" and "truthy (get_prop b (lit ''telefone''))"
    and "truthy (get_prop b (lit ''endereco''))" and "truthy (get_prop b (lit ''pagamento''))"
    and "truthy (get_prop b (lit ''itens''))" and "truthy (get_prop b (lit ''total''))"
    and "db_error sb (Insert (lit ''pedidos_finalizados'')) = None"
  shows "pedidos_finalizados (snd (post_finalizar sb uid req w)) =
           pedidos_finalizados w @
             [\<lparr>f_id = next_id w, f_created_at = now w, f_user_id = uid,
               f_nome = get_prop b (lit ''nome''), f_telefone = get_prop b (lit ''telefone''),
               f_endereco = get_prop b (lit ''endereco''),
               f_pagamento = get_prop b (lit ''pagamento''),
               f_observacoes = get_prop b (lit ''observacoes''),
               f_itens_json = JSON_stringify (get_prop b (lit ''itens'')),
               f_total = get_prop b (lit ''total'')\<rparr>]"
  using assms destructure_object [OF truthy_prop_not_null [OF assms(2)]]
  by (simp add: post_finalizar_def insert_pedidos_finalizados_def logged_def Let_def)

lemma handlers_read_named_fields:
  assumes "b \<noteq> JNull" and "b' \<noteq> JNull"
    and "\<forall>k. k \<notin> {lit ''user_id'', lit ''owner''} \<longrightarrow> get_prop b' k = get_prop b k"
  shows "post_pedidos sb uid \<lparr>authorization = h, body = Some b'\<rparr> w
           = post_pedidos sb uid \<lparr>authorization = h, body = Some b\<rparr> w"
    and "post_finalizar sb uid \<lparr>authorization = h, body = Some b'\<rparr> w
           = post_finalizar sb uid \<lparr>authorization = h, body = Some b\<rparr> w"
    and "post_pedidos_part000 sb uid \<lparr>authorization = h, body = Some b'\<rparr> w
           = post_pedidos_part000 sb uid \<lparr>authorization = h, body = Some b\<rparr> w"
  using assms(3) destructure_object [OF assms(1)] destructure_object [OF assms(2)]
  by (simp_all add: post_pedidos_def post_finalizar_def post_pedidos_part000_def)

lemma logged_tables [simp]:
  "pedidos (logged c w) = pedidos w" "pedidos_finalizados (logged c w) = pedidos_finalizados w"
  "perfis (logged c w) = perfis w" "menu (logged c w) = menu w"
  "next_id (logged c w) = next_id w" "now (logged c w) = now w"
  by (simp_all add: logged_def)

text \<open>
  C2. The body parser passes on a submission with the body \<open>b\<close>, and the gateway resolves
  its bearer token to the user \<open>u\<close>. A valid submission that the store accepts then adds
  exactly one row, and its owner is the identity of \<open>u\<close>; this holds for the order and the
  finalized order of index.js and for the order of the older entry point. A second request
  with the same header, whose body \<open>b'\<close> differs from \<open>b\<close> in a user_id or owner field
  only, has the same outcome and leaves the same world: the stored owner does not depend
  on those fields.
\<close>

theorem owner_is_resolved_identity:
  assumes "parser (payload inc) = Inr (Some b)" and "parser (payload inc') = Inr (Some b')"
    and "bearer_token (header_authorization inc) = Some token" and "token \<noteq> []"
    and "gu_error (getUser_reply sb token) = None" and "gu_user (getUser_reply sb token) = Some u"
    and "header_authorization inc' = header_authorization inc"
    and "b \<noteq> JNull" and "b' \<noteq> JNull"
    and "\<forall>k. k \<notin> {lit ''user_id'', lit ''owner''} \<longrightarrow> get_prop b' k = get_prop b k"
  shows "(truthy (get_prop b (lit ''items'')) \<and> truthy (get_prop b (lit ''total''))
          \<and> truthy (get_prop b (lit ''details'')) \<and> db_error sb (Insert (lit ''pedidos'')) = None
          \<longrightarrow> (\<exists>row. pedidos (snd (route_post_pedidos parser sb inc w)) = pedidos w @ [row]
                    \<and> p_user_id row = user_ident u))
       \<and> (truthy (get_prop b (lit ''nome'')) \<and> truthy (get_prop b (lit ''telefone''))
          \<and> truthy (get_prop b (lit ''endereco'')) \<and> truthy (get_prop b (lit ''pagamento''))
          \<and> truthy (get_prop b (lit ''itens'')) \<and> truthy (get_prop b (lit ''total''))
          \<and> db_error sb (Insert (lit ''pedidos_finalizados'')) = None
          \<longrightarrow> (\<exists>row. pedidos_finalizados (snd (route_post_finalizar parser sb inc w))
                        = pedidos_finalizados w @ [row]
                    \<and> f_user_id row = user_ident u))
       \<and> (truthy (get_prop b (lit ''items'')) \<and> truthy (get_prop b (lit ''total''))
          \<and> db_error sb (Insert (lit ''pedidos'')) = None
          \<longrightarrow> (\<exists>row. pedidos (snd (route_post_pedidos_part000 parser sb inc w)) = pedidos w @ [row]
                    \<and> p_user_id row = user_ident u))
       \<and> route_post_pedidos parser sb inc' w = route_post_pedidos parser sb inc w
       \<and> route_post_finalizar parser sb inc' w = route_post_finalizar parser sb inc w
       \<and> route_post_pedidos_part000 parser sb inc' w = route_post_pedidos_part000 parser sb inc w"
proof -
  note r = routes_resolved [where parser = parser and inc = inc, OF assms(1,3-6)]
  have tok': "bearer_token (header_authorization inc') = Some token"
    using assms(3,7) by simp
  note r' = routes_resolved [where parser = parser and inc = inc', OF assms(2) tok' assms(4-6)]
  have a: "truthy (get_prop b (lit ''items'')) \<and> truthy (get_prop b (lit ''total''))
          \<and> truthy (get_prop b (lit ''details'')) \<and> db_error sb (Insert (lit ''pedidos'')) = None
          \<longrightarrow> (\<exists>row. pedidos (snd (route_post_pedidos parser sb inc w)) = pedidos w @ [row]
                    \<and> p_user_id row = user_ident u)"
    by (simp add: r post_pedidos_stores [where b = b])
  have b: "truthy (get_prop b (lit ''nome'')) \<and> truthy (get_prop b (lit ''telefone''))
          \<and> truthy (get_prop b (lit ''endereco'')) \<and> truthy (get_prop b (lit ''pagamento''))
          \<and> truthy (get_prop b (lit ''itens'')) \<and> truthy (get_prop b (lit ''total''))
          \<and> db_error sb (Insert (lit ''pedidos_finalizados'')) = None
          \<longrightarrow> (\<exists>row. pedidos_finalizados (snd (route_post_finalizar parser sb inc w))
                        = pedidos_finalizados w @ [row]
                    \<and> f_user_id row = user_ident u)"
    by (simp add: r post_finalizar_stores [where b = b])
  have c: "truthy (get_prop b (lit ''items'')) \<and> truthy (get_prop b (lit ''total''))
          \<and> db_error sb (Insert (lit ''pedidos'')) = None
          \<longrightarrow> (\<exists>row. pedidos (snd (route_post_pedidos_part000 parser sb inc w)) = pedidos w @ [row]
                    \<and> p_user_id row = user_ident u)"
    by (simp add: r post_pedidos_part000_stores [where b = b])
  have d: "route_post_pedidos parser sb inc' w = route_post_pedidos parser sb inc w"
    "route_post_finalizar parser sb inc' w = route_post_finalizar parser sb inc w"
    "route_post_pedidos_part000 parser sb inc' w = route_post_pedidos_part000 parser sb inc w"
    using assms(7) by (simp_all add: r r' handlers_read_named_fields [OF assms(8-10)])
  from a b c d show ?thesis by blast
qed

lemma sample_fields:
  "get_prop honest_body (lit ''items'') = Some (JArr [JNum 7 0])"
  "get_prop honest_body (lit ''total'') = Some (JNum 10 0)"
  "get_prop honest_body (lit ''details'') = Some (JStr (lit ''mesa 4''))"
  "\<forall>k. k \<notin> {lit ''user_id'', lit ''owner''} \<longrightarrow> get_prop spoofed_body k = get_prop honest_body k"
  "honest_body \<noteq> JNull" "spoofed_body \<noteq> JNull"
  by (simp_all add: honest_body_def spoofed_body_def)

theorem owner_is_resolved_identity_witness:
  "(\<exists>row. pedidos (snd (route_post_pedidos example_parser example_supabase honest_request
                           example_world)) = [row]
          \<and> p_user_id row = lit ''u1'')
   \<and> (\<exists>row. pedidos (snd (route_post_pedidos_part000 example_parser example_supabase honest_request
                              example_world)) = [row]
          \<and> p_user_id row = lit ''u1'')
   \<and> route_post_pedidos example_parser example_supabase spoofed_request example_world
       = route_post_pedidos example_parser example_supabase honest_request example_world"
proof -
  have h: "header_authorization honest_request = Some (lit ''Bearer tok'')"
    "header_authorization spoofed_request = header_authorization honest_request"
    by (simp_all add: honest_request_def spoofed_request_def json_request_def)
  have tok: "bearer_token (header_authorization honest_request) = Some (lit ''tok'')"
    using example_token(1) by (simp add: h(1))
  have ne: "lit ''tok'' \<noteq> []"
    by simp
  have accepted: "db_error example_supabase (Insert (lit ''pedidos'')) = None"
    by (simp add: example_supabase_def)
  have empty: "pedidos example_world = []"
    by (simp add: example_world_def)
  show ?thesis
    using owner_is_resolved_identity
            [where parser = example_parser and inc = honest_request and inc' = spoofed_request
               and sb = example_supabase and w = example_world,
             OF sample_requests_read(3,4) tok ne example_token(2,3) h(2) sample_fields(5,6,4)]
          accepted empty sample_fields(1-3)
    by simp
qed

section \<open>The order history\<close>

lemma pedidosFormatados_Inr:
  "pedidosFormatados rows = Inr formatted \<Longrightarrow>
   list_all2 (\<lambda>p j. \<exists>items. JSON_parse (items_text p) = Some items \<and> j = pedido_formatado p items)
     rows formatted"
  by (induction rows arbitrary: formatted) (auto split: option.splits sum.splits)

lemma pedidosFormatados_Inl:
  "pedidosFormatados rows = Inl e \<Longrightarrow> e = SyntaxError"
  by (induction rows) (auto split: option.splits sum.splits)

lemma pedidosFormatados_corrupt:
  "r \<in> set rows \<Longrightarrow> JSON_parse (items_text r) = None \<Longrightarrow> pedidosFormatados rows = Inl SyntaxError"
proof (induction rows)
  case Nil
  then show ?case by simp
next
  case (Cons p ps)
  show ?case
  proof (cases "JSON_parse (items_text p)")
    case None
    then show ?thesis by simp
  next
    case (Some items)
    with Cons have "pedidosFormatados ps = Inl SyntaxError" by auto
    with Some show ?thesis by simp
  qed
qed

lemma newest_first:
  "sorted_wrt (\<lambda>a b. p_created_at b \<le> p_created_at a) (sort_key (\<lambda>r. - int (p_created_at r)) rows)"
proof -
  have "sorted (map (\<lambda>r. - int (p_created_at r)) (sort_key (\<lambda>r. - int (p_created_at r)) rows))"
    by (rule sorted_sort_key)
  then show ?thesis
    by (simp add: sorted_map)
qed

lemma parse_examples:
  "JSON_parse (lit ''[1]'') = Some (JArr [JNum 1 0])"
  "JSON_parse (lit ''[3]'') = Some (JArr [JNum 3 0])"
  "JSON_parse (lit ''[1,'') = None"
  by code_simp+

lemma history_header:
  "bearer_token (header_authorization history_request) = Some (lit ''tok'')"
  using example_token(1) by (simp add: history_request_def)

lemma history_example:
  "route_get_pedidos_part000 example_parser example_supabase history_request history_world =
     (Sent \<lparr>res_status = 200,
            res_json = JArr
              [JObj [(lit ''id'', JNum 3 0), (lit ''total'', JNum 30 0),
                     (lit ''status'', JStr (lit ''Pendente'')), (lit ''created_at'', JNum 7 0),
                     (lit ''items_json'', JStr (lit ''[3]'')), (lit ''items'', JArr [JNum 3 0])],
               JObj [(lit ''id'', JNum 1 0), (lit ''total'', JNum 10 0),
                     (lit ''status'', JStr (lit ''Pendente'')), (lit ''created_at'', JNum 5 0),
                     (lit ''items_json'', JStr (lit ''[1]'')), (lit ''items'', JArr [JNum 1 0])]]\<rparr>,
      history_world\<lparr>calls := [GetUser (lit ''tok''), Select (lit ''pedidos'')]\<rparr>)"
proof -
  have p: "JSON_parse [91, 49, 93] = Some (JArr [JNum 1 0])"
    "JSON_parse [91, 51, 93] = Some (JArr [JNum 3 0])"
    using parse_examples(1,2) by simp_all
  note r = routes_resolved(4)
             [where parser = example_parser and inc = history_request,
              OF sample_requests_read(6) history_header tok_not_empty example_token(2,3)]
  show ?thesis
    unfolding r
    by (simp add: get_pedidos_part000_def select_pedidos_def example_supabase_def
        history_world_def history_request_def logged_def items_text_def p pedido_formatado_def
        or_null_def str_or_null_def)
qed

text \<open>
  C3. When the order history of the older entry point answers 200 to a request of the
  user \<open>u\<close>, the answer is an array with one entry per row of a list \<open>rows\<close>, each entry
  being its row with the parsed items added; \<open>rows\<close> holds exactly the stored orders
  whose owner is \<open>u\<close>, and no other user's, latest creation time first. Nothing is said
  about the order of rows created at the same time.
\<close>

theorem history_is_own_and_newest_first:
  assumes "bearer_token (header_authorization inc) = Some token" and "token \<noteq> []"
    and "gu_error (getUser_reply sb token) = None" and "gu_user (getUser_reply sb token) = Some u"
    and "route_get_pedidos_part000 parser sb inc w = (Sent res, w')" and "res_status res = 200"
  shows "\<exists>rows formatted.
           res_json res = JArr formatted
         \<and> list_all2 (\<lambda>p j. \<exists>items. JSON_parse (items_text p) = Some items
                               \<and> j = pedido_formatado p items) rows formatted
         \<and> set rows = {r \<in> set (pedidos w). p_user_id r = user_ident u}
         \<and> sorted_wrt (\<lambda>a b. p_created_at b \<le> p_created_at a) rows"
proof -
  let ?w1 = "logged (GetUser token) w"
  let ?rows = "sort_key (\<lambda>r. - int (p_created_at r))
                 (filter (\<lambda>r. p_user_id r = user_ident u) (pedidos w))"
  obtain b where passed: "parser (payload inc) = Inr b"
    using assms(5) by (cases "parser (payload inc)") (auto simp: route_defs app_use_def)
  let ?req = "\<lparr>authorization = header_authorization inc, body = b\<rparr>"
  have get: "get_pedidos_part000 sb (user_ident u) ?req ?w1 = (Sent res, w')"
    using assms(5)
    by (simp add: routes_resolved(4) [where parser = parser and inc = inc, OF passed assms(1-4)])
  have ok: "db_error sb (Select (lit ''pedidos'')) = None"
  proof (rule ccontr)
    assume "db_error sb (Select (lit ''pedidos'')) \<noteq> None"
    then have "res_status res = 500"
      using get by (auto simp: get_pedidos_part000_def select_pedidos_def send_error_def)
    with assms(6) show False by simp
  qed
  obtain formatted where f: "pedidosFormatados ?rows = Inr formatted" "res_json res = JArr formatted"
    using get ok by (auto simp: get_pedidos_part000_def select_pedidos_def split: sum.splits)
  have "list_all2 (\<lambda>p j. \<exists>items. JSON_parse (items_text p) = Some items
                               \<and> j = pedido_formatado p items) ?rows formatted"
    using f(1) by (rule pedidosFormatados_Inr)
  moreover have "set ?rows = {r \<in> set (pedidos w). p_user_id r = user_ident u}"
    by auto
  moreover have "sorted_wrt (\<lambda>a b. p_created_at b \<le> p_created_at a) ?rows"
    by (rule newest_first)
  ultimately show ?thesis
    using f(2) by blast
qed

theorem history_is_own_and_newest_first_witness:
  "\<exists>rows formatted.
       JArr [JObj [(lit ''id'', JNum 3 0), (lit ''total'', JNum 30 0),
                   (lit ''status'', JStr (lit ''Pendente'')), (lit ''created_at'', JNum 7 0),
                   (lit ''items_json'', JStr (lit ''[3]'')), (lit ''items'', JArr [JNum 3 0])],
             JObj [(lit ''id'', JNum 1 0), (lit ''total'', JNum 10 0),
                   (lit ''status'', JStr (lit ''Pendente'')), (lit ''created_at'', JNum 5 0),
                   (lit ''items_json'', JStr (lit ''[1]'')), (lit ''items'', JArr [JNum 1 0])]]
         = JArr formatted
     \<and> list_all2 (\<lambda>p j. \<exists>items. JSON_parse (items_text p) = Some items
                           \<and> j = pedido_formatado p items) rows formatted
     \<and> set rows = {r \<in> set (pedidos history_world). p_user_id r = lit ''u1''}
     \<and> sorted_wrt (\<lambda>a b. p_created_at b \<le> p_created_at a) rows"
proof -
  have ne: "lit ''tok'' \<noteq> []"
    by simp
  show ?thesis
    using history_is_own_and_newest_first
            [where parser = example_parser and inc = history_request and sb = example_supabase
               and w = history_world,
             OF history_header ne example_token(2,3) history_example]
    by simp
qed

section \<open>A stored text that is not JSON\<close>

text \<open>
  C5, as the spec states it: when a stored row of the caller holds an items text that is
  not JSON, the request is answered with an error response. In \<open>corrupt_world\<close> the
  handler sends no response at all.
\<close>

theorem corrupt_row_counterexample:
  "\<not> (\<exists>res. fst (route_get_pedidos_part000 example_parser example_supabase history_request
                    corrupt_world) = Sent res)"
proof -
  have p: "JSON_parse [91, 49, 93] = Some (JArr [JNum 1 0])" "JSON_parse [91, 49, 44] = None"
    using parse_examples(1,3) by simp_all
  note r = routes_resolved(4)
             [where parser = example_parser and inc = history_request,
              OF sample_requests_read(6) history_header tok_not_empty example_token(2,3)]
  show ?thesis
    unfolding r
    by (simp add: get_pedidos_part000_def select_pedidos_def example_supabase_def
        corrupt_world_def corrupt_row_def items_text_def p)
qed

text \<open>
  C5, amended. When the store serves the query and a stored row of the caller holds an
  items text that \<^verbatim>\<open>JSON.parse\<close> rejects, the whole request fails: the SyntaxError
  leaves the handler, which sends no response, neither the list without that row nor a
  part of the list.
\<close>

theorem corrupt_row_fails_whole_request:
  assumes "parser (payload inc) = Inr b"
    and "bearer_token (header_authorization inc) = Some token" and "token \<noteq> []"
    and "gu_error (getUser_reply sb token) = None" and "gu_user (getUser_reply sb token) = Some u"
    and "db_error sb (Select (lit ''pedidos'')) = None"
    and "r \<in> set (pedidos w)" and "p_user_id r = user_ident u"
    and "JSON_parse (items_text r) = None"
  shows "route_get_pedidos_part000 parser sb inc w =
           (Threw SyntaxError, logged (Select (lit ''pedidos'')) (logged (GetUser token) w))"
proof -
  let ?rows = "sort_key (\<lambda>r. - int (p_created_at r))
                 (filter (\<lambda>r. p_user_id r = user_ident u) (pedidos w))"
  have "r \<in> set ?rows"
    using assms(7,8) by simp
  then have "pedidosFormatados ?rows = Inl SyntaxError"
    using assms(9) by (rule pedidosFormatados_corrupt)
  then show ?thesis
    using assms(6)
    by (simp add: routes_resolved(4) [where parser = parser and inc = inc, OF assms(1-5)]
        get_pedidos_part000_def select_pedidos_def)
qed

theorem corrupt_row_fails_whole_request_witness:
  "route_get_pedidos_part000 example_parser example_supabase history_request corrupt_world =
     (Threw SyntaxError,
      corrupt_world\<lparr>calls := [GetUser (lit ''tok''), Select (lit ''pedidos'')]\<rparr>)"
proof -
  have ne: "lit ''tok'' \<noteq> []"
    by simp
  have served: "db_error example_supabase (Select (lit ''pedidos'')) = None"
    by (simp add: example_supabase_def)
  have row: "corrupt_row \<in> set (pedidos corrupt_world)"
    "p_user_id corrupt_row = user_ident \<lparr>user_ident = lit ''u1''\<rparr>"
    by (simp_all add: corrupt_world_def corrupt_row_def)
  have "JSON_parse [91, 49, 44] = None"
    using parse_examples(3) by simp
  then have corrupt: "JSON_parse (items_text corrupt_row) = None"
    by (simp add: items_text_def corrupt_row_def)
  show ?thesis
    using corrupt_row_fails_whole_request
            [where parser = example_parser and inc = history_request and sb = example_supabase
               and w = corrupt_world,
             OF sample_requests_read(6) history_header ne example_token(2,3) served row corrupt]
    by (simp add: logged_def corrupt_world_def)
qed

section \<open>A sign-up that the auth service refuses\<close>

text \<open>
  C6, as the spec states it: the message of the auth service reaches the client verbatim.
  index.js replaces the message for a malformed address by a text of its own.
\<close>

theorem malformed_email_counterexample:
  "su_error (signUp_reply example_supabase (Some (JStr (lit ''ana@exemplo'')))
               (Some (JStr (lit ''segredo''))))
     = Some (lit ''Unable to validate email address: invalid format'')
   \<and> fst (post_register example_supabase register_request example_world)
     \<noteq> send_error 400 (lit ''Unable to validate email address: invalid format'')"
  by (simp add: post_register_def register_request_def register_body_def destructure_def
      example_supabase_def auth_signUp_def register_catch_def send_error_def error_body_def)

text \<open>
  C6, amended. When the three fields are present and the auth service refuses the sign-up
  with a message, the answer is 400 and the only call made is that sign-up: no profile row
  is written and no session is asked for. The older entry point passes the message on
  verbatim unless it is empty, when a fixed text replaces it; index.js moreover replaces a
  message that contains \<^verbatim>\<open>Unable to validate email address\<close> or \<^verbatim>\<open>invalid format\<close> by
  a fixed text.
\<close>

theorem signup_failure_is_400_and_nothing_stored:
  assumes "body req = Some b"
    and "truthy (get_prop b (lit ''email''))" and "truthy (get_prop b (lit ''password''))"
    and "truthy (get_prop b (lit ''nome''))"
    and "su_error (signUp_reply sb (get_prop b (lit ''email'')) (get_prop b (lit ''password'')))
           = Some message"
  shows "post_register sb req w =
           (send_error 400
              (if js_includes message (lit ''Unable to validate email address'')
               then lit (''O e-mail informado '' @ [CHR 0xE9] @ '' inv'' @ [CHR 0xE1]
                           @ ''lido. Verifique se est'' @ [CHR 0xE1] @ '' no formato correto.'')
               else if js_includes message (lit ''invalid format'')
               then lit (''Formato de e-mail inv'' @ [CHR 0xE1] @ ''lido.'')
               else if message \<noteq> [] then message
               else lit ''Erro no processo de cadastro.''),
            logged (SignUp (get_prop b (lit ''email'')) (get_prop b (lit ''password''))) w)
       \<and> post_register_part000 sb req w =
           (send_error 400
              (if message \<noteq> [] then message else lit ''Erro no processo de cadastro.''),
            logged (SignUp (get_prop b (lit ''email'')) (get_prop b (lit ''password''))) w)"
  using assms destructure_object [OF truthy_prop_not_null [OF assms(2)]]
  by (simp add: post_register_def post_register_part000_def auth_signUp_def register_catch_def
      register_catch_part000_def Let_def)

theorem signup_failure_is_400_and_nothing_stored_witness:
  "post_register duplicate_supabase register_request example_world =
     (send_error 400 (lit ''User already registered''),
      example_world\<lparr>calls := [SignUp (Some (JStr (lit ''ana@exemplo'')))
                                 (Some (JStr (lit ''segredo'')))]\<rparr>)
   \<and> post_register_part000 duplicate_supabase register_request example_world =
     (send_error 400 (lit ''User already registered''),
      example_world\<lparr>calls := [SignUp (Some (JStr (lit ''ana@exemplo'')))
                                 (Some (JStr (lit ''segredo'')))]\<rparr>)"
  using signup_failure_is_400_and_nothing_stored
          [of register_request register_body duplicate_supabase "lit ''User already registered''"
              example_world]
  by (simp add: register_request_def register_body_def duplicate_supabase_def example_supabase_def
      logged_def example_world_def)

section \<open>A stored order in the history\<close>

text \<open>A unit price of 12.5 reads back as it was written.\<close>

lemma fractional_price_reads_back:
  "JSON_parse (stringify (JObj [(lit ''unit_price'', JNum 125 1)]))
     = Some (JObj [(lit ''unit_price'', JNum 125 1)])"
  by (rule JSON_parse_stringify)
    (simp add: property_order_def is_array_index_def is_digit_def num_ok_def)

lemma pedidosFormatados_total:
  "\<forall>r \<in> set rows. JSON_parse (items_text r) \<noteq> None \<Longrightarrow> \<exists>formatted. pedidosFormatados rows = Inr formatted"
  by (induction rows) auto

lemma formatted_member:
  assumes "pedidosFormatados rows = Inr formatted" and "r \<in> set rows"
    and "JSON_parse (items_text r) = Some items"
  shows "pedido_formatado r items \<in> set formatted"
  using assms
  by (induction rows arbitrary: formatted) (auto split: option.splits sum.splits)

lemma pedido_formatado_fields:
  "get_prop (pedido_formatado p items) (lit ''id'') = Some (JNum (int (p_id p)) 0)
   \<and> get_prop (pedido_formatado p items) (lit ''total'') = Some (or_null (p_total p))
   \<and> get_prop (pedido_formatado p items) (lit ''items'') = Some items"
  by (simp add: pedido_formatado_def)

lemma history_after_store:
  assumes passed: "parser (payload inc') = Inr b'"
    and get: "bearer_token (header_authorization inc') = Some token'" "token' \<noteq> []"
      "gu_error (getUser_reply sb token') = None" "gu_user (getUser_reply sb token') = Some u'"
    and served: "db_error sb (Select (lit ''pedidos'')) = None"
    and rows: "pedidos w1 = old @ [row]"
    and row: "p_user_id row = user_ident u'" "p_items_json row = Some (stringify S)" "json_ok S"
    and old: "\<forall>r \<in> set old. p_user_id r = user_ident u' \<longrightarrow> JSON_parse (items_text r) \<noteq> None"
  shows "\<exists>formatted w2.
           route_get_pedidos_part000 parser sb inc' w1
             = (Sent \<lparr>res_status = 200, res_json = JArr formatted\<rparr>, w2)
         \<and> pedido_formatado row S \<in> set formatted"
proof -
  let ?rows = "sort_key (\<lambda>r. - int (p_created_at r))
                 (filter (\<lambda>r. p_user_id r = user_ident u') (pedidos w1))"
  have new: "JSON_parse (items_text row) = Some S"
    using row(2,3) by (simp add: items_text_def JSON_parse_stringify)
  have "\<forall>r \<in> set ?rows. JSON_parse (items_text r) \<noteq> None"
    using old new rows by auto
  then obtain formatted where f: "pedidosFormatados ?rows = Inr formatted"
    using pedidosFormatados_total by blast
  have "row \<in> set ?rows"
    using rows row(1) by simp
  then have "pedido_formatado row S \<in> set formatted"
    using f new by (intro formatted_member) auto
  moreover have "route_get_pedidos_part000 parser sb inc' w1
       = (Sent \<lparr>res_status = 200, res_json = JArr formatted\<rparr>,
          logged (Select (lit ''pedidos'')) (logged (GetUser token') w1))"
    using f served
    by (simp add: routes_resolved(4) [where parser = parser and inc = inc', OF passed get]
        get_pedidos_part000_def select_pedidos_def)
  ultimately show ?thesis by blast
qed

text \<open>
  C8. A user submits an order whose body holds the cart \<open>S\<close> and the total \<open>T\<close>, both
  truthy, \<open>S\<close> a JavaScript value, and the store accepts it. When the same user then asks
  for the order history, the store serves the query and the user's earlier rows hold JSON,
  the answer is 200 and holds an entry with the id of the new row whose items are \<open>S\<close>
  itself, in the same order, and whose total is \<open>T\<close>: \<^verbatim>\<open>JSON.parse\<close> inverts the
  \<^verbatim>\<open>JSON.stringify\<close> of the submission. This holds for the submission of the older
  entry point and, when the body also has details, for the one of index.js.
\<close>

theorem stored_order_reads_back:
  assumes passed: "parser (payload inc) = Inr (Some b)" "parser (payload inc') = Inr b'"
    and post: "bearer_token (header_authorization inc) = Some token" "token \<noteq> []"
      "gu_error (getUser_reply sb token) = None" "gu_user (getUser_reply sb token) = Some u"
    and get: "bearer_token (header_authorization inc') = Some token'" "token' \<noteq> []"
      "gu_error (getUser_reply sb token') = None" "gu_user (getUser_reply sb token') = Some u'"
    and same: "user_ident u' = user_ident u"
    and items: "get_prop b (lit ''items'') = Some S" "truthy (Some S)" "json_ok S"
    and total: "get_prop b (lit ''total'') = Some T" "truthy (Some T)"
    and accepted: "db_error sb (Insert (lit ''pedidos'')) = None"
    and served: "db_error sb (Select (lit ''pedidos'')) = None"
    and old: "\<forall>r \<in> set (pedidos w). p_user_id r = user_ident u \<longrightarrow> JSON_parse (items_text r) \<noteq> None"
  shows "(\<exists>formatted w2 j.
            route_get_pedidos_part000 parser sb inc'
                (snd (route_post_pedidos_part000 parser sb inc w))
              = (Sent \<lparr>res_status = 200, res_json = JArr formatted\<rparr>, w2)
          \<and> j \<in> set formatted \<and> get_prop j (lit ''id'') = Some (JNum (int (next_id w)) 0)
          \<and> get_prop j (lit ''items'') = Some S \<and> get_prop j (lit ''total'') = Some T)
       \<and> (truthy (get_prop b (lit ''details'')) \<longrightarrow>
          (\<exists>formatted w2 j.
            route_get_pedidos_part000 parser sb inc' (snd (route_post_pedidos parser sb inc w))
              = (Sent \<lparr>res_status = 200, res_json = JArr formatted\<rparr>, w2)
          \<and> j \<in> set formatted \<and> get_prop j (lit ''id'') = Some (JNum (int (next_id w)) 0)
          \<and> get_prop j (lit ''items'') = Some S \<and> get_prop j (lit ''total'') = Some T))"
proof -
  let ?row = "\<lambda>d. \<lparr>p_id = next_id w, p_created_at = now w, p_user_id = user_ident u,
                   p_items_json = Some (stringify S), p_total = Some T,
                   p_status = lit ''Pendente'', p_details_json = d\<rparr>"
  let ?req = "\<lparr>authorization = header_authorization inc, body = Some b\<rparr>"
  note r = routes_resolved [where parser = parser and inc = inc, OF passed(1) post]
  have old': "\<forall>r \<in> set (pedidos w). p_user_id r = user_ident u' \<longrightarrow> JSON_parse (items_text r) \<noteq> None"
    using old same by simp
  have fields: "get_prop (pedido_formatado (?row d) S) (lit ''id'') = Some (JNum (int (next_id w)) 0)
              \<and> get_prop (pedido_formatado (?row d) S) (lit ''items'') = Some S
              \<and> get_prop (pedido_formatado (?row d) S) (lit ''total'') = Some T" for d
    using pedido_formatado_fields [of "?row d" S] by (simp add: or_null_def)
  have a: "pedidos (snd (route_post_pedidos_part000 parser sb inc w)) = pedidos w @ [?row None]"
    using items total accepted
      post_pedidos_part000_stores [where req = ?req and b = b and sb = sb
        and uid = "user_ident u" and w = "logged (GetUser token) w"]
    by (simp add: r JSON_stringify_def)
  have "\<exists>formatted w2.
           route_get_pedidos_part000 parser sb inc'
               (snd (route_post_pedidos_part000 parser sb inc w))
             = (Sent \<lparr>res_status = 200, res_json = JArr formatted\<rparr>, w2)
         \<and> pedido_formatado (?row None) S \<in> set formatted"
    using same items(3)
    by (intro history_after_store [where parser = parser and inc' = inc',
          OF passed(2) get served a _ _ _ old']) simp_all
  then have first: "\<exists>formatted w2 j.
            route_get_pedidos_part000 parser sb inc'
                (snd (route_post_pedidos_part000 parser sb inc w))
              = (Sent \<lparr>res_status = 200, res_json = JArr formatted\<rparr>, w2)
          \<and> j \<in> set formatted \<and> get_prop j (lit ''id'') = Some (JNum (int (next_id w)) 0)
          \<and> get_prop j (lit ''items'') = Some S \<and> get_prop j (lit ''total'') = Some T"
    using fields [of None] by blast
  have second: "\<exists>formatted w2 j.
            route_get_pedidos_part000 parser sb inc' (snd (route_post_pedidos parser sb inc w))
              = (Sent \<lparr>res_status = 200, res_json = JArr formatted\<rparr>, w2)
          \<and> j \<in> set formatted \<and> get_prop j (lit ''id'') = Some (JNum (int (next_id w)) 0)
          \<and> get_prop j (lit ''items'') = Some S \<and> get_prop j (lit ''total'') = Some T"
    if details: "truthy (get_prop b (lit ''details''))"
  proof -
    let ?d = "JSON_stringify (get_prop b (lit ''details''))"
    have b: "pedidos (snd (route_post_pedidos parser sb inc w)) = pedidos w @ [?row ?d]"
      using items total accepted details
        post_pedidos_stores [where req = ?req and b = b and sb = sb
          and uid = "user_ident u" and w = "logged (GetUser token) w"]
      by (simp add: r JSON_stringify_def)
    have "\<exists>formatted w2.
           route_get_pedidos_part000 parser sb inc' (snd (route_post_pedidos parser sb inc w))
             = (Sent \<lparr>res_status = 200, res_json = JArr formatted\<rparr>, w2)
         \<and> pedido_formatado (?row ?d) S \<in> set formatted"
      using same items(3)
      by (intro history_after_store [where parser = parser and inc' = inc',
            OF passed(2) get served b _ _ _ old']) simp_all
    then show ?thesis
      using fields [of ?d] by blast
  qed
  from first second show ?thesis by blast
qed

lemma cart_fields:
  "get_prop cart_body (lit ''items'') = Some cart_items" "truthy (Some cart_items)"
  "get_prop cart_body (lit ''total'') = Some (JNum 10 0)" "truthy (Some (JNum 10 0))"
  "truthy (get_prop cart_body (lit ''details''))"
  by (simp_all add: cart_body_def cart_items_def)

lemma cart_header: "bearer_token (header_authorization cart_request) = Some (lit ''tok'')"
  using example_token(1) by (simp add: cart_request_def json_request_def)

lemma history_world_parses:
  "\<forall>r \<in> set (pedidos history_world).
      p_user_id r = user_ident \<lparr>user_ident = lit ''u1''\<rparr> \<longrightarrow> JSON_parse (items_text r) \<noteq> None"
  using parse_examples(1,2) by (simp add: history_world_def items_text_def)

theorem stored_order_reads_back_witness:
  "(\<exists>formatted w2 j.
      route_get_pedidos_part000 example_parser example_supabase history_request
          (snd (route_post_pedidos_part000 example_parser example_supabase cart_request
                  history_world))
        = (Sent \<lparr>res_status = 200, res_json = JArr formatted\<rparr>, w2)
      \<and> j \<in> set formatted \<and> get_prop j (lit ''id'') = Some (JNum 4 0)
      \<and> get_prop j (lit ''items'') = Some cart_items
      \<and> get_prop j (lit ''total'') = Some (JNum 10 0))
   \<and> (\<exists>formatted w2 j.
      route_get_pedidos_part000 example_parser example_supabase history_request
          (snd (route_post_pedidos example_parser example_supabase cart_request history_world))
        = (Sent \<lparr>res_status = 200, res_json = JArr formatted\<rparr>, w2)
      \<and> j \<in> set formatted \<and> get_prop j (lit ''id'') = Some (JNum 4 0)
      \<and> get_prop j (lit ''items'') = Some cart_items
      \<and> get_prop j (lit ''total'') = Some (JNum 10 0))"
proof -
  have stored: "db_error example_supabase (Insert (lit ''pedidos'')) = None"
    "db_error example_supabase (Select (lit ''pedidos'')) = None"
    by (simp_all add: example_supabase_def)
  have fresh: "int (next_id history_world) = 4"
    by (simp add: history_world_def)
  show ?thesis
    using stored_order_reads_back
            [where parser = example_parser and inc = cart_request and inc' = history_request
               and sb = example_supabase and w = history_world,
             OF sample_requests_read(5,6) cart_header tok_not_empty example_token(2,3)
               history_header tok_not_empty example_token(2,3) refl cart_fields(1,2)
               sample_bodies_ok(6) cart_fields(3,4) stored history_world_parses]
          cart_fields(5)
    by (simp only: fresh)
qed

section \<open>The menu grouping\<close>

lemma map_of_replace_at:
  "map_of (map (\<lambda>(k', v'). if k' = k then (k', v) else (k', v')) kvs) x =
     (if x = k then map_option (\<lambda>old. v) (map_of kvs k) else map_of kvs x)"
  by (induction kvs) auto

lemma map_of_replace:
  assumes "k \<in> set (map fst kvs)"
  shows "map_of (map (\<lambda>(k', v'). if k' = k then (k', v) else (k', v')) kvs) = (map_of kvs)(k \<mapsto> v)"
proof -
  obtain old where "map_of kvs k = Some old"
    using assms by (cases "map_of kvs k") (auto simp: map_of_eq_None_iff)
  then show ?thesis
    by (auto simp: fun_eq_iff map_of_replace_at)
qed

lemma map_of_insert_index:
  "k \<notin> set (map fst kvs) \<Longrightarrow> map_of (insert_index k v kvs) = (map_of kvs)(k \<mapsto> v)"
  by (induction kvs) (auto simp: fun_eq_iff)

lemma map_of_snoc:
  assumes "k \<notin> set (map fst kvs)"
  shows "map_of (kvs @ [(k, v)]) = (map_of kvs)(k \<mapsto> v)"
proof -
  have "map_of kvs k = None"
    using assms by (simp add: map_of_eq_None_iff)
  then show ?thesis
    by (auto simp: fun_eq_iff map_add_def split: option.splits)
qed

lemma map_of_set_prop: "map_of (set_prop kvs k v) = (map_of kvs)(k \<mapsto> v)"
proof (cases "k \<in> set (map fst kvs)")
  case True
  then show ?thesis
    by (simp only: set_prop_def if_True map_of_replace)
next
  case False
  show ?thesis
  proof (cases "is_array_index k")
    case True
    with False have "set_prop kvs k v = insert_index k v kvs"
      by (simp only: set_prop_def if_False if_True)
    then show ?thesis
      using map_of_insert_index [OF False] by simp
  next
    case index: False
    with False have "set_prop kvs k v = kvs @ [(k, v)]"
      by (simp only: set_prop_def if_False)
    then show ?thesis
      using map_of_snoc [OF False] by simp
  qed
qed

text \<open>When no category is the name of an inherited property, the grouping succeeds and the
  rows of each category are its rows in the order of the query.\<close>

lemma agrupar_groups:
  assumes "\<forall>item \<in> set rows. category_of item \<notin> set object_prototype_keys"
  shows "\<exists>acc. agrupar expr acc0 rows = Inr acc
           \<and> (\<forall>c. map_of acc c =
                 (case map_of acc0 c of
                    Some xs \<Rightarrow> Some (xs @ filter (\<lambda>i. category_of i = c) rows)
                  | None \<Rightarrow> if filter (\<lambda>i. category_of i = c) rows = [] then None
                            else Some (filter (\<lambda>i. category_of i = c) rows)))"
  using assms
proof (induction rows arbitrary: acc0)
  case Nil
  then show ?case by (auto split: option.splits)
next
  case (Cons item items)
  let ?cat = "category_of item"
  show ?case
  proof (cases "map_of acc0 ?cat")
    case None
    let ?acc1 = "set_prop acc0 ?cat [item]"
    from Cons.prems have "\<forall>i \<in> set items. category_of i \<notin> set object_prototype_keys" by simp
    from Cons.IH [OF this, of ?acc1] obtain acc where
      acc: "agrupar expr ?acc1 items = Inr acc"
        "\<forall>c. map_of acc c =
             (case map_of ?acc1 c of
                Some xs \<Rightarrow> Some (xs @ filter (\<lambda>i. category_of i = c) items)
              | None \<Rightarrow> if filter (\<lambda>i. category_of i = c) items = [] then None
                        else Some (filter (\<lambda>i. category_of i = c) items))"
      by blast
    have "agrupar expr acc0 (item # items) = Inr acc"
      using None Cons.prems acc(1) by simp
    moreover have "map_of acc c =
                 (case map_of acc0 c of
                    Some xs \<Rightarrow> Some (xs @ filter (\<lambda>i. category_of i = c) (item # items))
                  | None \<Rightarrow> if filter (\<lambda>i. category_of i = c) (item # items) = [] then None
                            else Some (filter (\<lambda>i. category_of i = c) (item # items)))" for c
      using acc(2) [rule_format, of c] None
      by (auto simp: map_of_set_prop split: option.splits)
    ultimately show ?thesis by blast
  next
    case (Some xs)
    let ?acc1 = "set_prop acc0 ?cat (xs @ [item])"
    from Cons.prems have "\<forall>i \<in> set items. category_of i \<notin> set object_prototype_keys" by simp
    from Cons.IH [OF this, of ?acc1] obtain acc where
      acc: "agrupar expr ?acc1 items = Inr acc"
        "\<forall>c. map_of acc c =
             (case map_of ?acc1 c of
                Some xs \<Rightarrow> Some (xs @ filter (\<lambda>i. category_of i = c) items)
              | None \<Rightarrow> if filter (\<lambda>i. category_of i = c) items = [] then None
                        else Some (filter (\<lambda>i. category_of i = c) items))"
      by blast
    have "agrupar expr acc0 (item # items) = Inr acc"
      using Some acc(1) by simp
    moreover have "map_of acc c =
                 (case map_of acc0 c of
                    Some xs \<Rightarrow> Some (xs @ filter (\<lambda>i. category_of i = c) (item # items))
                  | None \<Rightarrow> if filter (\<lambda>i. category_of i = c) (item # items) = [] then None
                            else Some (filter (\<lambda>i. category_of i = c) (item # items)))" for c
      using acc(2) [rule_format, of c] Some
      by (auto simp: map_of_set_prop split: option.splits)
    ultimately show ?thesis by blast
  qed
qed

text \<open>The spec's example: two drinks, and between them a row with no category.\<close>

lemma menu_example_grouped:
  "agrupar expr [] [bebida 1 (Some (lit ''Bebidas'')), bebida 2 None, bebida 3 (Some (lit ''Bebidas''))] =
     Inr [(lit ''Bebidas'', [bebida 1 (Some (lit ''Bebidas'')), bebida 3 (Some (lit ''Bebidas''))]),
          (lit ''Outros'', [bebida 2 None])]"
  by (simp add: category_of_def bebida_def object_prototype_keys_def set_prop_def
      is_array_index_def is_digit_def Let_def)

text \<open>
  C9. The spec asks that the rows be grouped by category name, whatever the names. The
  accumulator inherits a property named \<^verbatim>\<open>constructor\<close>, so for a row of that category
  \<^verbatim>\<open>!acc[cat]\<close> is false, no array is created, and \<^verbatim>\<open>acc[cat].push\<close> is not a function:
  the TypeError leaves the handler and no grouping is sent. Both entry points do so.
\<close>

theorem inherited_category_throws:
  "get_menu example_supabase menu_request
     (example_world\<lparr>menu := [bebida 1 (Some (lit ''constructor''))]\<rparr>)
   = (Threw (TypeError (lit ''acc[cat].push is not a function'')),
      example_world\<lparr>menu := [bebida 1 (Some (lit ''constructor''))],
                     calls := [Select (lit ''menu'')]\<rparr>)
   \<and> get_menu_part000 example_supabase menu_request
     (example_world\<lparr>menu := [bebida 1 (Some (lit ''constructor''))]\<rparr>)
   = (Threw (TypeError (lit ''acc[category].push is not a function'')),
      example_world\<lparr>menu := [bebida 1 (Some (lit ''constructor''))],
                     calls := [Select (lit ''menu'')]\<rparr>)"
  by (simp add: get_menu_def get_menu_part000_def get_menu_with_def select_menu_def
      example_supabase_def example_world_def logged_def category_of_def bebida_def
      object_prototype_keys_def)

end
